theory Spec2Isabelle
  imports Complex_Main "HOL-Library.AList"
begin

section \<open>The event persister (pkg/eventpersister/persister/persister.go)\<close>

subsection \<open>Data\<close>

text \<open>
  The label values of \<open>handledCounter\<close> that the persister uses (package \<open>codes\<close>).
\<close>

datatype code = OK | MissingID | DuplicateID | BadMessage | RepeatableError | NonRepeatableError

text \<open>
  Errors are values. \<open>ErrUnexpectedMessageType\<close> is the persister's own error,
  \<open>ErrKeyNotFound\<close> is \<open>bigtable.ErrKeyNotFound\<close>, which the code compares with \<open>==\<close>;
  every other error of a collaborator is \<open>ErrOther\<close> with its text.
\<close>

datatype err = ErrUnexpectedMessageType | ErrKeyNotFound | ErrOther string

text \<open>
  Of the enumeration \<open>eventproto.SourceId\<close> the persister names only \<open>GOAL_BATCH\<close>;
  the other members are kept by their name.
\<close>

datatype SourceId = GOAL_BATCH | SourceId_other string

record User =
  user_Id :: string
  user_Data :: "(string \<times> string) list"

text \<open>
  The fields of \<open>featureproto.Evaluation\<close> that the persister reads. \<open>ev_Reason\<close> is
  \<open>None\<close> for a nil \<open>Reason\<close> and otherwise the name of its type (\<open>Reason.Type.String()\<close>).
\<close>

record Evaluation =
  ev_FeatureId :: string
  ev_FeatureVersion :: int
  ev_VariationId :: string
  ev_Reason :: "string option"

record EvaluationEvent =
  ee_SourceId :: SourceId
  ee_Tag :: string
  ee_Timestamp :: int
  ee_FeatureId :: string
  ee_FeatureVersion :: int
  ee_UserId :: string
  ee_VariationId :: string
  ee_Reason :: "string option"
  ee_User :: "User option"

record GoalEvent =
  ge_SourceId :: SourceId
  ge_Tag :: string
  ge_Timestamp :: int
  ge_GoalId :: string
  ge_UserId :: string
  ge_User :: "User option"
  ge_Value :: real
  ge_Evaluations :: "Evaluation list"

record UserEvent =
  ue_SourceId :: SourceId
  ue_Tag :: string
  ue_LastSeen :: int
  ue_UserId :: string

text \<open>
  The inner payload of an envelope after \<open>ptypes.UnmarshalAny\<close>: a \<open>proto.Message\<close> of
  some registered type. The type switches of the persister know three of them; the bus
  also carries goal batch and metrics events, and any other registered type is
  \<open>OtherMessage\<close> with its type name.
\<close>

datatype Message_inner =
    EvaluationEventM EvaluationEvent
  | GoalEventM GoalEvent
  | UserEventM UserEvent
  | GoalBatchEventM
  | MetricsEventM
  | OtherMessage string

text \<open>
  The bytes of a message are represented by what the two decoding calls make of them:
  \<open>m_Data\<close> is \<open>None\<close> where \<open>proto.Unmarshal\<close> of the outer envelope fails, and
  \<open>env_Event\<close> is \<open>None\<close> where \<open>ptypes.UnmarshalAny\<close> of the inner payload fails.
\<close>

record Event =
  env_Id :: string
  env_EnvironmentNamespace :: string
  env_Event :: "Message_inner option"

text \<open>
  \<open>puller.Message\<close>: the bus message with its attributes. Its \<open>Ack\<close> and \<open>Nack\<close> act on
  the bus; the model counts the calls per message in the record \<open>world\<close> below. The
  source holds messages by pointer; here \<open>m_ID\<close>, the id that the bus gave the message,
  tells two messages of the same content apart.
\<close>

record Message =
  m_ID :: string
  m_Data :: "Event option"
  m_Attributes :: "(string \<times> string) list"

datatype log = Error string | Warn string

text \<open>
  Everything the persister does to the outside apart from its calls to the stores:
  acknowledgements on the bus, the two Prometheus counters and the log.
\<close>

record world =
  acks :: "Message \<Rightarrow> nat"
  nacks :: "Message \<Rightarrow> nat"
  handledCounter :: "code \<Rightarrow> nat"
  receivedCounter :: nat
  logs :: "log list"

definition Ack :: "Message \<Rightarrow> world \<Rightarrow> world" where
  "Ack m w = w\<lparr>acks := (acks w)(m := acks w m + 1)\<rparr>"

definition Nack :: "Message \<Rightarrow> world \<Rightarrow> world" where
  "Nack m w = w\<lparr>nacks := (nacks w)(m := nacks w m + 1)\<rparr>"

definition Inc :: "code \<Rightarrow> world \<Rightarrow> world" where
  "Inc c w = w\<lparr>handledCounter := (handledCounter w)(c := handledCounter w c + 1)\<rparr>"

definition logError :: "string \<Rightarrow> world \<Rightarrow> world" where
  "logError s w = w\<lparr>logs := logs w @ [Error s]\<rparr>"

definition logWarn :: "string \<Rightarrow> world \<Rightarrow> world" where
  "logWarn s w = w\<lparr>logs := logs w @ [Warn s]\<rparr>"

text \<open>
  The JSON record of the warehouse path, before \<open>json.Marshal\<close> turns it into text. The
  renderings of numbers and times are kept symbolic: \<open>JRFC3339 t\<close> is
  \<open>time.Unix(t, 0).Format(time.RFC3339)\<close>, \<open>JDecimal n\<close> is \<open>strconv.FormatInt(n, 10)\<close>,
  \<open>JFloat x\<close> is \<open>strconv.FormatFloat(x, 'f', -1, 64)\<close> and \<open>JEvaluation f v i r\<close> is
  \<open>fmt.Sprintf("%s:%d:%s:%s", f, v, i, r)\<close>. \<open>json.Marshal\<close> cannot fail on a map of
  strings and string lists, so its error branch has no counterpart here.
\<close>

datatype jvalue =
    JString string
  | JRFC3339 int
  | JDecimal int
  | JFloat real
  | JEvaluation string int string string
  | JArray "jvalue list"

type_synonym jrecord = "(string \<times> jvalue) list"

text \<open>The typed rows of the row store (\<open>v2ec.EventCreationStorage\<close>).\<close>

datatype row =
    EvaluationRow EvaluationEvent string string
  | GoalRow GoalEvent string string "jvalue list"
  | UserRow UserEvent string string

text \<open>
  The persister with its collaborators. A collaborator is a function from the arguments
  of the call to its outcome: \<open>datastore_Write\<close> is \<open>datastore.Writer.Write\<close> (the
  environment first, then the records by id) and returns the failure map with the error,
  \<open>GetUserEvaluations\<close> is the user evaluations storage (user id, environment, tag),
  \<open>EvaluateFeatures\<close> is the RPC of the feature service (user, environment, tag) and
  \<open>postgresClient\<close> is \<open>None\<close> for a nil client and otherwise the insert of a row.
\<close>

record Persister =
  flushSize :: int
  datastore_Write :: "string \<Rightarrow> (string \<times> jrecord) list \<Rightarrow> (string \<times> bool) list \<times> err option"
  GetUserEvaluations :: "string \<Rightarrow> string \<Rightarrow> string \<Rightarrow> err + Evaluation list"
  EvaluateFeatures :: "User option \<Rightarrow> string \<Rightarrow> string \<Rightarrow> err + Evaluation list"
  postgresClient :: "(row \<Rightarrow> err option) option"

subsection \<open>Goal enrichment: \<open>getEvaluations\<close>\<close>

text \<open>
  \<open>getCurrentUserEvaluations\<close> returns nil evaluations together with the error of the
  storage, and the stored evaluations with no error.
\<close>

definition getCurrentUserEvaluations ::
  "Persister \<Rightarrow> string \<Rightarrow> string \<Rightarrow> string \<Rightarrow> Evaluation list \<times> err option" where
  "getCurrentUserEvaluations p environmentNamespace userID tag =
     (case GetUserEvaluations p userID environmentNamespace tag of
        Inl e \<Rightarrow> ([], Some e)
      | Inr evaluations \<Rightarrow> (evaluations, None))"

text \<open>
  The result is the triple of the source: the evaluations (nil is the empty list), the
  retriable flag and the error. Only the last branch writes to the log.
\<close>

definition getEvaluations ::
  "Persister \<Rightarrow> GoalEvent \<Rightarrow> string \<Rightarrow> world \<Rightarrow> (Evaluation list \<times> bool \<times> err option) \<times> world" where
  "getEvaluations p e environmentNamespace w =
     (if ge_SourceId e = GOAL_BATCH then
        (case getCurrentUserEvaluations p environmentNamespace (ge_UserId e) (ge_Tag e) of
           (ue, Some err) \<Rightarrow>
             if err = ErrKeyNotFound then
               (case EvaluateFeatures p (ge_User e) environmentNamespace (ge_Tag e) of
                  Inl err' \<Rightarrow> (([], False, Some err'), w)
                | Inr evaluations \<Rightarrow> ((evaluations, False, None), w))
             else (([], True, Some err), w)
         | (ue, None) \<Rightarrow> ((ue, False, None), w))
      else if ge_Tag e = '''' then ((ge_Evaluations e, False, None), w)
      else
        (case getCurrentUserEvaluations p environmentNamespace (ge_UserId e) (ge_Tag e) of
           (ue, err) \<Rightarrow>
             if err \<noteq> None \<and> err \<noteq> Some ErrKeyNotFound
             then (([], True, err), logError ''Failed to get user evaluations'' w)
             else ((ue, False, None), w)))"

subsection \<open>Marshalling for the warehouse\<close>

definition sourceIdString :: "SourceId \<Rightarrow> string" where
  "sourceIdString s = (case s of GOAL_BATCH \<Rightarrow> ''GOAL_BATCH'' | SourceId_other n \<Rightarrow> n)"

definition userMetadataColumn :: "string \<Rightarrow> string \<Rightarrow> string" where
  "userMetadataColumn environmentNamespace key =
     (if environmentNamespace = '''' then ''user.data.'' @ key
      else environmentNamespace @ ''.user.data.'' @ key)"

definition userMetadata :: "string \<Rightarrow> User option \<Rightarrow> jrecord \<Rightarrow> jrecord" where
  "userMetadata environmentNamespace user m =
     (case user of
        None \<Rightarrow> m
      | Some u \<Rightarrow>
          fold (\<lambda>(k, v). AList.update (userMetadataColumn environmentNamespace k) (JString v))
            (user_Data u) m)"

definition formatEvaluations :: "Evaluation list \<Rightarrow> jvalue list" where
  "formatEvaluations ue =
     map (\<lambda>eval. JEvaluation (ev_FeatureId eval) (ev_FeatureVersion eval) (ev_VariationId eval)
            (case ev_Reason eval of None \<Rightarrow> '''' | Some r \<Rightarrow> r)) ue"

definition marshalEvaluationEvent ::
  "Persister \<Rightarrow> EvaluationEvent \<Rightarrow> string \<Rightarrow> world \<Rightarrow> (jrecord \<times> bool \<times> err option) \<times> world" where
  "marshalEvaluationEvent p e environmentNamespace w =
     (let m = [];
          m = AList.update ''environmentNamespace'' (JString environmentNamespace) m;
          m = AList.update ''sourceId'' (JString (sourceIdString (ee_SourceId e))) m;
          m = AList.update ''tag'' (JString (ee_Tag e)) m;
          m = AList.update ''timestamp'' (JRFC3339 (ee_Timestamp e)) m;
          m = AList.update ''featureId'' (JString (ee_FeatureId e)) m;
          m = AList.update ''featureVersion'' (JDecimal (ee_FeatureVersion e)) m;
          m = AList.update ''userId'' (JString (ee_UserId e)) m;
          m = AList.update ''metric.userId'' (JString (ee_UserId e)) m;
          m = AList.update ''variationId'' (JString (ee_VariationId e)) m;
          m = (case ee_Reason e of None \<Rightarrow> m | Some r \<Rightarrow> AList.update ''reason'' (JString r) m);
          m = userMetadata environmentNamespace (ee_User e) m
      in ((m, False, None), w))"

definition marshalGoalEvent ::
  "Persister \<Rightarrow> GoalEvent \<Rightarrow> string \<Rightarrow> world \<Rightarrow> (jrecord \<times> bool \<times> err option) \<times> world" where
  "marshalGoalEvent p e environmentNamespace w =
     (let m = [];
          m = AList.update ''environmentNamespace'' (JString environmentNamespace) m;
          m = AList.update ''sourceId'' (JString (sourceIdString (ge_SourceId e))) m;
          m = AList.update ''tag'' (JString (ge_Tag e)) m;
          m = AList.update ''timestamp'' (JRFC3339 (ge_Timestamp e)) m;
          m = AList.update ''goalId'' (JString (ge_GoalId e)) m;
          m = AList.update ''userId'' (JString (ge_UserId e)) m;
          m = AList.update ''metric.userId'' (JString (ge_UserId e)) m;
          m = userMetadata environmentNamespace (ge_User e) m;
          m = AList.update ''value'' (JFloat (ge_Value e)) m
      in case getEvaluations p e environmentNamespace w of
           ((ue, retriable, Some err), w1) \<Rightarrow> (([], retriable, Some err), w1)
         | ((ue, retriable, None), w1) \<Rightarrow>
             (let evaluations = formatEvaluations ue;
                  w2 = (if length evaluations = 0
                        then logWarn ''Goal event has no evaluations'' w1 else w1);
                  m = AList.update ''evaluations'' (JArray evaluations) m
              in ((m, False, None), w2)))"

definition marshalUserEvent ::
  "Persister \<Rightarrow> UserEvent \<Rightarrow> string \<Rightarrow> world \<Rightarrow> (jrecord \<times> bool \<times> err option) \<times> world" where
  "marshalUserEvent p e environmentNamespace w =
     (let m = [];
          m = AList.update ''environmentNamespace'' (JString environmentNamespace) m;
          m = AList.update ''sourceId'' (JString (sourceIdString (ue_SourceId e))) m;
          m = AList.update ''tag'' (JString (ue_Tag e)) m;
          m = AList.update ''timestamp'' (JRFC3339 (ue_LastSeen e)) m;
          m = AList.update ''userId'' (JString (ue_UserId e)) m
      in ((m, False, None), w))"

text \<open>The type switch of \<open>marshalEvent\<close>; every other type falls through to the error.\<close>

fun marshalEvent ::
  "Persister \<Rightarrow> Message_inner \<Rightarrow> string \<Rightarrow> world \<Rightarrow> (jrecord \<times> bool \<times> err option) \<times> world" where
  "marshalEvent p (EvaluationEventM event) environmentNamespace w =
     marshalEvaluationEvent p event environmentNamespace w"
| "marshalEvent p (GoalEventM event) environmentNamespace w =
     marshalGoalEvent p event environmentNamespace w"
| "marshalEvent p (UserEventM event) environmentNamespace w =
     marshalUserEvent p event environmentNamespace w"
| "marshalEvent p _ environmentNamespace w = (([], False, Some ErrUnexpectedMessageType), w)"

subsection \<open>The row store\<close>

definition createEvaluationEvent ::
  "(row \<Rightarrow> err option) \<Rightarrow> EvaluationEvent \<Rightarrow> string \<Rightarrow> string \<Rightarrow> world \<Rightarrow> err option \<times> world" where
  "createEvaluationEvent client event eid environmentNamespace w =
     (case client (EvaluationRow event eid environmentNamespace) of
        Some err \<Rightarrow> (Some err, logError ''Failed to store evaluation event'' w)
      | None \<Rightarrow> (None, w))"

definition createGoalEvent ::
  "Persister \<Rightarrow> (row \<Rightarrow> err option) \<Rightarrow> GoalEvent \<Rightarrow> string \<Rightarrow> string \<Rightarrow> world \<Rightarrow> err option \<times> world" where
  "createGoalEvent p client event eid environmentNamespace w =
     (case getEvaluations p event environmentNamespace w of
        ((ue, retriable, Some err), w1) \<Rightarrow> (Some err, w1)
      | ((ue, retriable, None), w1) \<Rightarrow>
          (let evaluations = formatEvaluations ue;
               w2 = (if length evaluations = 0
                     then logWarn ''Goal event has no evaluations'' w1 else w1)
           in case client (GoalRow event eid environmentNamespace evaluations) of
                Some err \<Rightarrow> (Some err, logError ''Failed to store goal event'' w2)
              | None \<Rightarrow> (None, w2)))"

definition createUserEvent ::
  "(row \<Rightarrow> err option) \<Rightarrow> UserEvent \<Rightarrow> string \<Rightarrow> string \<Rightarrow> world \<Rightarrow> err option \<times> world" where
  "createUserEvent client event eid environmentNamespace w =
     (case client (UserRow event eid environmentNamespace) of
        Some err \<Rightarrow> (Some err, logError ''Failed to store user event'' w)
      | None \<Rightarrow> (None, w))"

fun createEvent ::
  "Persister \<Rightarrow> (row \<Rightarrow> err option) \<Rightarrow> Message_inner \<Rightarrow> string \<Rightarrow> string \<Rightarrow> world \<Rightarrow> err option \<times> world" where
  "createEvent p client (EvaluationEventM event) eid environmentNamespace w =
     createEvaluationEvent client event eid environmentNamespace w"
| "createEvent p client (GoalEventM event) eid environmentNamespace w =
     createGoalEvent p client event eid environmentNamespace w"
| "createEvent p client (UserEventM event) eid environmentNamespace w =
     createUserEvent client event eid environmentNamespace w"
| "createEvent p client _ eid environmentNamespace w = (Some ErrUnexpectedMessageType, w)"

subsection \<open>The flush: \<open>extractEvents\<close> and \<open>send\<close>\<close>

text \<open>
  Go maps are association lists here: \<open>m[k] = v\<close> is \<open>AList.update\<close>, a lookup is
  \<open>map_of\<close>, and a \<open>range\<close> loop is a \<open>fold\<close> over the list. Go leaves the order of a
  \<open>range\<close> over a map open; the list fixes it to the order in which the keys came in.
  The failure map is only looked up and assigned to, so it is a map \<open>string \<rightharpoonup> bool\<close>.
\<close>

type_synonym eventMap = "(string \<times> Message_inner) list"
type_synonym environmentEventMap = "(string \<times> eventMap) list"
type_synonym messages = "(string \<times> Message) list"

definition handleBadMessage :: "Message \<Rightarrow> world \<Rightarrow> world" where
  "handleBadMessage m w = Inc BadMessage (logError ''bad message'' (Ack m w))"

text \<open>The body of the loop of \<open>extractEvents\<close>, for one message of the batch.\<close>

definition extractEvent ::
  "string \<times> Message \<Rightarrow> environmentEventMap \<times> world \<Rightarrow> environmentEventMap \<times> world" where
  "extractEvent = (\<lambda>(key, m) (envEvents, w).
     case m_Data m of
       None \<Rightarrow> (envEvents, handleBadMessage m w)
     | Some event \<Rightarrow>
         (case env_Event event of
            None \<Rightarrow> (envEvents, handleBadMessage m w)
          | Some innerEvent \<Rightarrow>
              (case map_of envEvents (env_EnvironmentNamespace event) of
                 Some innerEvents \<Rightarrow>
                   (AList.update (env_EnvironmentNamespace event)
                      (AList.update (env_Id event) innerEvent innerEvents) envEvents, w)
               | None \<Rightarrow>
                   (AList.update (env_EnvironmentNamespace event)
                      [(env_Id event, innerEvent)] envEvents, w))))"

definition extractEvents :: "messages \<Rightarrow> world \<Rightarrow> environmentEventMap \<times> world" where
  "extractEvents ms w = fold extractEvent ms ([], w)"

text \<open>
  The body of the inner loop of \<open>send\<close> (lines 241 to 266), for one event of an
  environment: the row store first, when there is one, then the marshalling. The state of
  the loop is the records to write, the failure map and the world.
\<close>

definition sendEvent ::
  "Persister \<Rightarrow> string \<Rightarrow> string \<times> Message_inner \<Rightarrow>
   (string \<times> jrecord) list \<times> (string \<rightharpoonup> bool) \<times> world \<Rightarrow>
   (string \<times> jrecord) list \<times> (string \<rightharpoonup> bool) \<times> world" where
  "sendEvent p environmentNamespace = (\<lambda>(eid, event) (evs, fails, w).
     let w1 = (case postgresClient p of
                 None \<Rightarrow> w
               | Some client \<Rightarrow>
                   (case createEvent p client event eid environmentNamespace w of
                      (Some err, w') \<Rightarrow> logError ''failed to store an event'' w'
                    | (None, w') \<Rightarrow> w'))
     in case marshalEvent p event environmentNamespace w1 of
          ((eventJSON, repeatable, Some err), w2) \<Rightarrow>
            (evs, fails(eid \<mapsto> repeatable),
             if \<not> repeatable then logError ''failed to marshal an unrepeatable event'' w2 else w2)
        | ((eventJSON, repeatable, None), w2) \<Rightarrow>
            (AList.update eid eventJSON evs, fails, w2))"

text \<open>
  The body of the outer loop (lines 239 to 280), for one environment: its events, then one
  write of the records that marshalled, whose failure map is copied into \<open>fails\<close>.
\<close>

definition sendEnvironment ::
  "Persister \<Rightarrow> string \<times> eventMap \<Rightarrow> (string \<rightharpoonup> bool) \<times> world \<Rightarrow> (string \<rightharpoonup> bool) \<times> world" where
  "sendEnvironment p = (\<lambda>(environmentNamespace, events) (fails, w).
     case fold (sendEvent p environmentNamespace) events ([], fails, w) of
       (evs, fails1, w1) \<Rightarrow>
         if length evs > 0 then
           (case datastore_Write p environmentNamespace evs of
              (fs, err) \<Rightarrow>
                (fold (\<lambda>(eid, f) fails'. fails'(eid \<mapsto> f)) fs fails1,
                 case err of
                   Some e \<Rightarrow> logError ''could not write to datastore'' w1
                 | None \<Rightarrow> w1))
         else (fails1, w1))"

text \<open>The body of the last loop (lines 281 to 294), for one message of the batch.\<close>

definition ackMessage :: "(string \<rightharpoonup> bool) \<Rightarrow> string \<times> Message \<Rightarrow> world \<Rightarrow> world" where
  "ackMessage fails = (\<lambda>(key, m) w.
     case fails key of
       Some repeatable \<Rightarrow>
         if repeatable then Inc RepeatableError (Nack m w)
         else Inc NonRepeatableError (Ack m w)
     | None \<Rightarrow> Inc OK (Ack m w))"

text \<open>
  The failure map that a flush of the batch builds, and the world in which the last loop
  starts. When no message decodes the source returns before it makes the map.
\<close>

definition sendFails :: "Persister \<Rightarrow> messages \<Rightarrow> world \<Rightarrow> (string \<rightharpoonup> bool) \<times> world" where
  "sendFails p ms w =
     (case extractEvents ms w of
        (envEvents, w1) \<Rightarrow> fold (sendEnvironment p) envEvents (Map.empty, w1))"

definition send :: "Persister \<Rightarrow> messages \<Rightarrow> world \<Rightarrow> world" where
  "send p ms w =
     (case extractEvents ms w of
        (envEvents, w1) \<Rightarrow>
          if length envEvents = 0 then logError ''all messages were bad'' w1
          else
            (case sendFails p ms w of
               (fails, w2) \<Rightarrow> fold (ackMessage fails) ms w2))"

subsection \<open>The batching loop: \<open>batch\<close>\<close>

text \<open>
  One turn of the \<open>select\<close> of the worker: a message from the puller, the channel of the
  puller closed, the flush timer, or the context done. The times themselves are not
  modelled: a run of the worker is the list of what its \<open>select\<close> chose.
\<close>

datatype select = Received Message | ChannelClosed | TimerFired | ContextDone

definition attributeId :: "Message \<Rightarrow> string" where
  "attributeId msg = (case map_of (m_Attributes msg) ''id'' of None \<Rightarrow> '''' | Some v \<Rightarrow> v)"

text \<open>The case of a received message (lines 198 to 217).\<close>

definition batchMessage :: "Persister \<Rightarrow> Message \<Rightarrow> messages \<times> world \<Rightarrow> messages \<times> world" where
  "batchMessage p msg = (\<lambda>(b, w).
     let w1 = w\<lparr>receivedCounter := receivedCounter w + 1\<rparr>;
         key = attributeId msg
     in if key = '''' then (b, Inc MissingID (Ack msg w1))
        else
          (let w2 = (case map_of b key of
                       Some previous \<Rightarrow>
                         Inc DuplicateID (logWarn ''Message with duplicate id'' (Ack previous w1))
                     | None \<Rightarrow> w1);
               b' = AList.update key msg b
           in if int (length b') < flushSize p then (b', w2)
              else ([], send p b' w2)))"

text \<open>The case of the timer (lines 218 to 223).\<close>

definition batchTimer :: "Persister \<Rightarrow> messages \<times> world \<Rightarrow> messages \<times> world" where
  "batchTimer p = (\<lambda>(b, w). if length b > 0 then ([], send p b w) else (b, w))"

text \<open>
  The loop: it returns when the channel is closed or the context is done, and the model
  also stops where the list of choices ends. The result is the batch in hand and the world.
\<close>

fun batch :: "Persister \<Rightarrow> select list \<Rightarrow> messages \<times> world \<Rightarrow> messages \<times> world" where
  "batch p [] s = s"
| "batch p (Received msg # rest) s = batch p rest (batchMessage p msg s)"
| "batch p (ChannelClosed # rest) s = s"
| "batch p (TimerFired # rest) s = batch p rest (batchTimer p s)"
| "batch p (ContextDone # rest) s = s"

subsection \<open>Batches and messages\<close>

text \<open>
  A batch as the worker builds it: a map (the keys are distinct) in which every message
  sits under its own \<open>id\<close> attribute.
\<close>

definition keyed :: "messages \<Rightarrow> bool" where
  "keyed b \<longleftrightarrow>
     distinct (map fst b) \<and> list_all (\<lambda>(key, m). attributeId m = key) b"

text \<open>
  What holds of the batch of a worker between two turns of its loop: the keys are
  distinct, every message sits under its own non-empty \<open>id\<close> attribute, and a batch that is
  not empty is below the flush size (a batch that reaches it is sent at once).
\<close>

definition batch_ok :: "Persister \<Rightarrow> messages \<Rightarrow> bool" where
  "batch_ok p b \<longleftrightarrow>
     distinct (map fst b) \<and>
     list_all (\<lambda>(key, m). attributeId m = key \<and> key \<noteq> '''') b \<and>
     (b = [] \<or> int (length b) < flushSize p)"

text \<open>
  What \<open>extractEvents\<close> makes of a message: the environment, the id of the envelope and
  the inner payload when both decoding calls succeed, and nothing otherwise.
\<close>

definition decoded :: "Message \<Rightarrow> (string \<times> string \<times> Message_inner) option" where
  "decoded m =
     (case m_Data m of
        None \<Rightarrow> None
      | Some event \<Rightarrow>
          (case env_Event event of
             None \<Rightarrow> None
           | Some innerEvent \<Rightarrow> Some (env_EnvironmentNamespace event, env_Id event, innerEvent)))"

definition decodes :: "Message \<Rightarrow> bool" where
  "decodes m = (case m_Data m of None \<Rightarrow> False | Some event \<Rightarrow> env_Event event \<noteq> None)"

text \<open>The payload types that the type switch of \<open>marshalEvent\<close> does not name.\<close>

definition unexpected :: "Message_inner \<Rightarrow> bool" where
  "unexpected event =
     (case event of
        EvaluationEventM e \<Rightarrow> False
      | GoalEventM e \<Rightarrow> False
      | UserEventM e \<Rightarrow> False
      | _ \<Rightarrow> True)"

text \<open>
  The batch is keyed by the \<open>id\<close> attribute of the message, the failure map by the id
  inside the envelope. \<open>idsAgree\<close> says that the publisher wrote the same id to both,
  for every message of the batch that decodes.
\<close>

definition idsAgree :: "messages \<Rightarrow> bool" where
  "idsAgree ms =
     list_all (\<lambda>(key, m). case m_Data m of
                            None \<Rightarrow> True
                          | Some event \<Rightarrow> env_Event event = None \<or> env_Id event = key) ms"

text \<open>The datastore reports failures only for records it was given.\<close>

definition reportsOnlyWritten :: "Persister \<Rightarrow> bool" where
  "reportsOnlyWritten p \<longleftrightarrow>
     (\<forall>environmentNamespace evs.
        set (map fst (fst (datastore_Write p environmentNamespace evs))) \<subseteq> set (map fst evs))"

text \<open>The two-level lookup \<open>envEvents[environmentNamespace][id]\<close>.\<close>

definition lookupEvent :: "environmentEventMap \<Rightarrow> string \<Rightarrow> string \<Rightarrow> Message_inner option" where
  "lookupEvent envEvents environmentNamespace eid =
     (case map_of envEvents environmentNamespace of
        None \<Rightarrow> None
      | Some events \<Rightarrow> map_of events eid)"

text \<open>An association list of association lists that stands for a map of maps.\<close>

definition wellformed :: "environmentEventMap \<Rightarrow> bool" where
  "wellformed acc \<longleftrightarrow>
     distinct (map fst acc) \<and> (\<forall>(e, events) \<in> set acc. distinct (map fst events))"

text \<open>Two worlds that differ in the log at most.\<close>

definition sameEffects :: "world \<Rightarrow> world \<Rightarrow> bool" where
  "sameEffects w w' \<longleftrightarrow>
     acks w = acks w' \<and> nacks w = nacks w' \<and> handledCounter w = handledCounter w' \<and>
     receivedCounter w = receivedCounter w'"

section \<open>The SDK gateway\<close>

text \<open>
  Of the gateway the sources hold the tests of its gRPC service
  (\<open>TestGrpcCheckEnvironmentAPIKey\<close>, \<open>TestGrpcGetEvaluationsUserEvaluationsID\<close>,
  \<open>TestGrcpRegisterEvents\<close> and the others), not the service. Its operations are
  therefore taken from the specification, sections 4.3.1, 4.3.2 and 4.3.4, and each
  definition says so. Where a test of the sources decides a point against the words of
  the specification, the definition follows the test and names it.
\<close>

subsection \<open>Data\<close>

text \<open>The error kinds of the gateway (specification, section 7).\<close>

datatype gateway_error =
    ErrContextCanceled | ErrMissingAPIKey | ErrInvalidAPIKey | ErrBadRole | ErrDisabledAPIKey
  | ErrTagRequired | ErrUserRequired | ErrUserIDRequired | ErrFeatureIDRequired
  | ErrFeatureNotFound | ErrMissingEvents | ErrMissingEventID | ErrInternal

datatype Role = SDK | SERVICE

record APIKey =
  key_Id :: string
  key_Role :: Role
  key_Disabled :: bool

record EnvironmentAPIKey =
  eak_EnvironmentNamespace :: string
  eak_ApiKey :: APIKey
  eak_EnvironmentDisabled :: bool

text \<open>
  Of a feature the gateway itself reads the tags; the id and the version go into the
  user evaluations id, the rest is the business of the evaluation engine.
\<close>

record Feature =
  f_Id :: string
  f_Version :: int
  f_Tags :: "string list"

text \<open>
  The request and the response of \<open>GetEvaluations\<close>. The id of the request is optional;
  the evaluations of the response are \<open>None\<close> for nil.
\<close>

record GetEvaluationsRequest =
  req_Tag :: string
  req_User :: "User option"
  req_UserEvaluationsId :: "string option"

datatype State = PARTIAL | FULL

record GetEvaluationsResponse =
  resp_State :: State
  resp_Evaluations :: "Evaluation list option"
  resp_UserEvaluationsId :: string

text \<open>
  The collaborators of the gateway, as functions from the arguments of a call to its
  outcome: the features that the cache or the \<open>ListFeatures\<close> RPC delivers, the
  fingerprint \<open>UserEvaluationsID\<close> (user id, user data, features), the evaluation engine
  (features, user, tag) and the upsert into the per-user storage (user id, environment,
  tag, evaluation).
\<close>

record Gateway =
  gw_Features :: "gateway_error + Feature list"
  gw_UserEvaluationsID :: "string \<Rightarrow> (string \<times> string) list \<Rightarrow> Feature list \<Rightarrow> string"
  gw_evaluate :: "Feature list \<Rightarrow> User \<Rightarrow> string \<Rightarrow> gateway_error + Evaluation list"
  gw_UpsertUserEvaluation :: "string \<Rightarrow> string \<Rightarrow> string \<Rightarrow> Evaluation \<Rightarrow> err option"

subsection \<open>Admission\<close>

text \<open>
  Modelled from the spec: \<open>checkEnvironmentAPIKey\<close>, whose source (the gateway's api
  package) is missing; section 4.3.1 gives its checks in this order: the role must match
  the required one, a mismatch is \<open>ErrBadRole\<close>; a disabled key or a disabled environment
  is \<open>ErrDisabledAPIKey\<close>. \<open>None\<close> is the nil error.
\<close>

definition checkEnvironmentAPIKey :: "EnvironmentAPIKey \<Rightarrow> Role \<Rightarrow> gateway_error option" where
  "checkEnvironmentAPIKey environmentAPIKey role =
     (if key_Role (eak_ApiKey environmentAPIKey) \<noteq> role then Some ErrBadRole
      else if key_Disabled (eak_ApiKey environmentAPIKey) \<or> eak_EnvironmentDisabled environmentAPIKey
      then Some ErrDisabledAPIKey
      else None)"

subsection \<open>GetEvaluations\<close>

text \<open>
  Modelled from the spec: \<open>validateGetEvaluationsRequest\<close>, whose source is missing;
  section 4.3.2: the tag must not be empty, the user must be there and its id must not be
  empty, else \<open>ErrTagRequired\<close>, \<open>ErrUserRequired\<close>, \<open>ErrUserIDRequired\<close>. A valid request
  yields its user.
\<close>

definition validateGetEvaluationsRequest :: "GetEvaluationsRequest \<Rightarrow> gateway_error + User" where
  "validateGetEvaluationsRequest req =
     (if req_Tag req = '''' then Inl ErrTagRequired
      else case req_User req of
             None \<Rightarrow> Inl ErrUserRequired
           | Some user \<Rightarrow> if user_Id user = '''' then Inl ErrUserIDRequired else Inr user)"

text \<open>
  Modelled from the spec: the tag filter of the evaluation engine, whose source is
  missing; section 4.2: a feature with no tag matches all tags, the gateway restricts to
  the tag of the request. The filtered feature set of a request is
  \<open>filter (tagMatch tag) features\<close>.
\<close>

definition tagMatch :: "string \<Rightarrow> Feature \<Rightarrow> bool" where
  "tagMatch tag f \<longleftrightarrow> f_Tags f = [] \<or> tag \<in> set (f_Tags f)"

text \<open>
  Modelled from the spec: \<open>GetEvaluations\<close>, whose source is missing; the flow of
  section 4.3.2 after admission: validate, load the features, compute the new id; when
  the id of the request equals it, answer \<open>FULL\<close> with the id and nil evaluations, else
  evaluate and answer \<open>FULL\<close> with the id and the evaluations. The user event that is
  published on the side does not show in the response and is left out.

  On two points the tests of the service decide, and the definition follows them.
  \<^item> \<open>TestGrpcGetEvaluationsZeroFeature\<close>: when the loaded feature list is empty, the
    response is \<open>FULL\<close> with nil evaluations and an empty id. The flow of the
    specification has no such branch.
  \<^item> \<open>TestGrpcGetEvaluationsUserEvaluationsID\<close>: the id is the fingerprint over the
    whole loaded feature list. Every row of the table asks for the tag \<open>test\<close>, which
    none of the loaded features carries, and expects the id
    \<open>UserEvaluationsID(userID, userMetadata, features)\<close> over all of them, with nil
    evaluations when the request brings that id. The specification computes the id
    over the features filtered by tag. The tag goes to the evaluation engine, which
    filters by it (section 4.2).
\<close>

definition GetEvaluations :: "Gateway \<Rightarrow> GetEvaluationsRequest \<Rightarrow> gateway_error + GetEvaluationsResponse" where
  "GetEvaluations gw req =
     (case validateGetEvaluationsRequest req of
        Inl e \<Rightarrow> Inl e
      | Inr user \<Rightarrow>
          (case gw_Features gw of
             Inl e \<Rightarrow> Inl e
           | Inr features \<Rightarrow>
               if features = []
               then Inr \<lparr>resp_State = FULL, resp_Evaluations = None,
                          resp_UserEvaluationsId = ''''\<rparr>
               else
                 (let newUEID = gw_UserEvaluationsID gw (user_Id user) (user_Data user) features
                  in if req_UserEvaluationsId req = Some newUEID
                     then Inr \<lparr>resp_State = FULL, resp_Evaluations = None,
                                resp_UserEvaluationsId = newUEID\<rparr>
                     else
                       (case gw_evaluate gw features user (req_Tag req) of
                          Inl e \<Rightarrow> Inl e
                        | Inr evaluations \<Rightarrow>
                            Inr \<lparr>resp_State = FULL, resp_Evaluations = Some evaluations,
                                  resp_UserEvaluationsId = newUEID\<rparr>))))"

subsection \<open>RegisterEvents\<close>

text \<open>
  Modelled from the spec: the payload types that \<open>RegisterEvents\<close> routes, whose source
  is missing; section 4.3.4 names the publishers for goal, goal batch, evaluation and
  metrics events. A payload that does not decode, or decodes to another type, is of
  unknown type.
\<close>

definition knownType :: "Message_inner option \<Rightarrow> bool" where
  "knownType inner =
     (case inner of
        Some (EvaluationEventM e) \<Rightarrow> True
      | Some (GoalEventM e) \<Rightarrow> True
      | Some GoalBatchEventM \<Rightarrow> True
      | Some MetricsEventM \<Rightarrow> True
      | _ \<Rightarrow> False)"

text \<open>
  Modelled from the spec: the conversion of an evaluation event into a
  \<open>featureproto.Evaluation\<close> (\<open>convToEvaluation\<close>), whose source is missing; the tag of the
  storage key is the tag of the event, or \<open>none\<close> for an empty one.
\<close>

definition convToEvaluation :: "EvaluationEvent \<Rightarrow> Evaluation \<times> string" where
  "convToEvaluation e =
     (\<lparr>ev_FeatureId = ee_FeatureId e, ev_FeatureVersion = ee_FeatureVersion e,
       ev_VariationId = ee_VariationId e, ev_Reason = ee_Reason e\<rparr>,
      if ee_Tag e = '''' then ''none'' else ee_Tag e)"

text \<open>
  Modelled from the spec: what \<open>RegisterEvents\<close> does with one event, whose source is
  missing; section 4.3.4: an unknown type is the per-event error that is not retriable,
  with the message \<open>Invalid message type\<close>; an evaluation event is converted and
  upserted under (user id, environment, tag), and an upsert error is the per-event
  error that is retriable, with the message \<open>Failed to upsert user evaluation\<close>; every
  other event has no error.
\<close>

definition registerEvent :: "Gateway \<Rightarrow> string \<Rightarrow> Event \<Rightarrow> (bool \<times> string) option" where
  "registerEvent gw environmentNamespace event =
     (if \<not> knownType (env_Event event) then Some (False, ''Invalid message type'')
      else case env_Event event of
             Some (EvaluationEventM e) \<Rightarrow>
               (case convToEvaluation e of
                  (evaluation, tag) \<Rightarrow>
                    (case gw_UpsertUserEvaluation gw (ee_UserId e) environmentNamespace tag evaluation of
                       Some err \<Rightarrow> Some (True, ''Failed to upsert user evaluation'')
                     | None \<Rightarrow> None))
           | _ \<Rightarrow> None)"

text \<open>
  Modelled from the spec: \<open>RegisterEvents\<close>, whose source is missing; section 4.3.4 after
  admission: no event is \<open>ErrMissingEvents\<close>, an event with an empty id is
  \<open>ErrMissingEventID\<close>, and otherwise the call succeeds with the map from event id to
  per-event error.
\<close>

definition RegisterEvents ::
  "Gateway \<Rightarrow> string \<Rightarrow> Event list \<Rightarrow> gateway_error + (string \<rightharpoonup> bool \<times> string)" where
  "RegisterEvents gw environmentNamespace events =
     (if events = [] then Inl ErrMissingEvents
      else if list_ex (\<lambda>event. env_Id event = '''') events then Inl ErrMissingEventID
      else Inr (fold (\<lambda>event errors.
                        case registerEvent gw environmentNamespace event of
                          Some e \<Rightarrow> errors(env_Id event \<mapsto> e)
                        | None \<Rightarrow> errors) events Map.empty))"

section \<open>Concrete inputs\<close>

text \<open>
  A world in which nothing has happened yet, a persister with the default flush size
  whose datastore accepts every record, whose evaluation storage has no entry and which
  has no row store, and a bus message with an \<open>id\<close> attribute.
\<close>

definition world0 :: world where
  "world0 = \<lparr>acks = (\<lambda>m. 0), nacks = (\<lambda>m. 0), handledCounter = (\<lambda>c. 0),
     receivedCounter = 0, logs = []\<rparr>"

definition persister0 :: Persister where
  "persister0 = \<lparr>flushSize = 50,
     datastore_Write = (\<lambda>environmentNamespace evs. ([], None)),
     GetUserEvaluations = (\<lambda>userID environmentNamespace tag. Inl ErrKeyNotFound),
     EvaluateFeatures = (\<lambda>user environmentNamespace tag. Inr []),
     postgresClient = None\<rparr>"

definition message :: "string \<Rightarrow> string \<Rightarrow> Event option \<Rightarrow> Message" where
  "message pid key d = \<lparr>m_ID = pid, m_Data = d, m_Attributes = [(''id'', key)]\<rparr>"

text \<open>An evaluation, and a goal event of a given source and tag that carries it.\<close>

definition evaluation0 :: Evaluation where
  "evaluation0 = \<lparr>ev_FeatureId = ''feature'', ev_FeatureVersion = 1,
     ev_VariationId = ''variation'', ev_Reason = Some ''DEFAULT''\<rparr>"

definition goal0 :: "SourceId \<Rightarrow> string \<Rightarrow> GoalEvent" where
  "goal0 s tag = \<lparr>ge_SourceId = s, ge_Tag = tag, ge_Timestamp = 0, ge_GoalId = ''goal'',
     ge_UserId = ''user'', ge_User = None, ge_Value = 1, ge_Evaluations = [evaluation0]\<rparr>"

text \<open>
  A user event, the data of a message that decodes to a given envelope id and payload in
  the environment \<open>ns\<close>, and a batch of three messages: two user events and a metrics
  event. The second persister has a datastore that fails the record \<open>b\<close> as repeatable.
\<close>

definition userEvent0 :: Message_inner where
  "userEvent0 = UserEventM \<lparr>ue_SourceId = SourceId_other ''ANDROID'', ue_Tag = ''android'',
     ue_LastSeen = 0, ue_UserId = ''user''\<rparr>"

definition envelope :: "string \<Rightarrow> Message_inner \<Rightarrow> Event option" where
  "envelope eid inner =
     Some \<lparr>env_Id = eid, env_EnvironmentNamespace = ''ns'', env_Event = Some inner\<rparr>"

definition batch3 :: messages where
  "batch3 = [(''a'', message ''1'' ''a'' (envelope ''a'' userEvent0)),
             (''b'', message ''2'' ''b'' (envelope ''b'' userEvent0)),
             (''c'', message ''3'' ''c'' (envelope ''c'' MetricsEventM))]"

definition persister1 :: Persister where
  "persister1 = persister0\<lparr>datastore_Write :=
     \<lambda>environmentNamespace evs. ([(''b'', True)], Some (ErrOther ''write failed''))\<rparr>"

text \<open>
  The inputs of the gateway tests: the environment API key of
  \<open>TestGrpcCheckEnvironmentAPIKey\<close> with its role and its two flags, and the events of
  \<open>TestGrcpRegisterEvents\<close>, a goal, an evaluation, a metrics and a goal batch event and
  an event whose payload is of no known type.
\<close>

definition environmentAPIKey0 :: "Role \<Rightarrow> bool \<Rightarrow> bool \<Rightarrow> EnvironmentAPIKey" where
  "environmentAPIKey0 role disabled environmentDisabled =
     \<lparr>eak_EnvironmentNamespace = ''ns0'',
      eak_ApiKey = \<lparr>key_Id = ''id-0'', key_Role = role, key_Disabled = disabled\<rparr>,
      eak_EnvironmentDisabled = environmentDisabled\<rparr>"

definition evaluationEvent0 :: EvaluationEvent where
  "evaluationEvent0 = \<lparr>ee_SourceId = SourceId_other ''UNKNOWN'', ee_Tag = '''', ee_Timestamp = 0,
     ee_FeatureId = '''', ee_FeatureVersion = 0, ee_UserId = '''', ee_VariationId = '''',
     ee_Reason = None, ee_User = None\<rparr>"

definition registered :: "string \<Rightarrow> Message_inner option \<Rightarrow> Event" where
  "registered eid inner = \<lparr>env_Id = eid, env_EnvironmentNamespace = '''', env_Event = inner\<rparr>"

definition events4 :: "Event list" where
  "events4 = [registered ''uuid0'' (Some (GoalEventM (goal0 (SourceId_other ''UNKNOWN'') ''''))),
              registered ''uuid1'' (Some (EvaluationEventM evaluationEvent0)),
              registered ''uuid2'' (Some MetricsEventM),
              registered ''uuid3'' (Some GoalBatchEventM)]"

text \<open>
  A gateway with two features, one tagged \<open>ios\<close> and one tagged \<open>android\<close>. Its
  fingerprint and its engine are stand-ins that show their arguments: the user id
  followed by the feature ids, and one evaluation per feature. The upsert of the second
  gateway fails.
\<close>

definition gateway0 :: Gateway where
  "gateway0 = \<lparr>
     gw_Features = Inr [\<lparr>f_Id = ''f1'', f_Version = 1, f_Tags = [''ios'']\<rparr>,
                        \<lparr>f_Id = ''f2'', f_Version = 1, f_Tags = [''android'']\<rparr>],
     gw_UserEvaluationsID = (\<lambda>userID data features. userID @ concat (map f_Id features)),
     gw_evaluate = (\<lambda>features user tag.
        Inr (map (\<lambda>f. \<lparr>ev_FeatureId = f_Id f, ev_FeatureVersion = f_Version f,
                         ev_VariationId = ''variation'', ev_Reason = Some ''DEFAULT''\<rparr>) features)),
     gw_UpsertUserEvaluation = (\<lambda>userID environmentNamespace tag evaluation. None)\<rparr>"

definition gateway1 :: Gateway where
  "gateway1 = gateway0\<lparr>gw_UpsertUserEvaluation :=
     \<lambda>userID environmentNamespace tag evaluation. Some (ErrOther ''storage: internal'')\<rparr>"

text \<open>
  The inputs of \<open>GetEvaluations\<close>: the two features of the gateway above, a gateway whose
  engine evaluates the features that match the tag, as section 4.2 has it, the same
  gateway with no feature at all, and a request of the user \<open>u1\<close> for a tag, with or
  without an id. In the table of \<open>TestGrpcGetEvaluationsUserEvaluationsID\<close> the tag is
  \<open>test\<close>, which no feature carries; in \<open>TestGrpcGetEvaluationsNoSegmentList\<close> it is \<open>ios\<close>,
  which some of the features carry.
\<close>

definition features0 :: "Feature list" where
  "features0 = [\<lparr>f_Id = ''f1'', f_Version = 1, f_Tags = [''ios'']\<rparr>,
                \<lparr>f_Id = ''f2'', f_Version = 1, f_Tags = [''android'']\<rparr>]"

definition gateway2 :: Gateway where
  "gateway2 = \<lparr>
     gw_Features = Inr features0,
     gw_UserEvaluationsID = (\<lambda>userID data features. userID @ concat (map f_Id features)),
     gw_evaluate = (\<lambda>features user tag.
        Inr (map (\<lambda>f. \<lparr>ev_FeatureId = f_Id f, ev_FeatureVersion = f_Version f,
                         ev_VariationId = ''variation'', ev_Reason = Some ''DEFAULT''\<rparr>)
               (filter (tagMatch tag) features))),
     gw_UpsertUserEvaluation = (\<lambda>userID environmentNamespace tag evaluation. None)\<rparr>"


definition request0 :: "string \<Rightarrow> string option \<Rightarrow> GetEvaluationsRequest" where
  "request0 tag ueid = \<lparr>req_Tag = tag,
     req_User = Some \<lparr>user_Id = ''u1'', user_Data = []\<rparr>, req_UserEvaluationsId = ueid\<rparr>"

section \<open>Properties of the persister\<close>

subsection \<open>The effects, field by field\<close>

lemma Ack_simps:
  "acks (Ack m w) = (acks w)(m := acks w m + 1)" "nacks (Ack m w) = nacks w"
  "handledCounter (Ack m w) = handledCounter w" "logs (Ack m w) = logs w"
  "receivedCounter (Ack m w) = receivedCounter w"
  by (simp_all add: Ack_def)

lemma Nack_simps:
  "acks (Nack m w) = acks w" "nacks (Nack m w) = (nacks w)(m := nacks w m + 1)"
  "handledCounter (Nack m w) = handledCounter w" "logs (Nack m w) = logs w"
  "receivedCounter (Nack m w) = receivedCounter w"
  by (simp_all add: Nack_def)

lemma Inc_simps:
  "acks (Inc c w) = acks w" "nacks (Inc c w) = nacks w"
  "handledCounter (Inc c w) = (handledCounter w)(c := handledCounter w c + 1)"
  "logs (Inc c w) = logs w" "receivedCounter (Inc c w) = receivedCounter w"
  by (simp_all add: Inc_def)

lemma logError_simps:
  "acks (logError s w) = acks w" "nacks (logError s w) = nacks w"
  "handledCounter (logError s w) = handledCounter w" "logs (logError s w) = logs w @ [Error s]"
  "receivedCounter (logError s w) = receivedCounter w"
  by (simp_all add: logError_def)

lemma logWarn_simps:
  "acks (logWarn s w) = acks w" "nacks (logWarn s w) = nacks w"
  "handledCounter (logWarn s w) = handledCounter w" "logs (logWarn s w) = logs w @ [Warn s]"
  "receivedCounter (logWarn s w) = receivedCounter w"
  by (simp_all add: logWarn_def)

lemmas world_simps = Ack_simps Nack_simps Inc_simps logError_simps logWarn_simps

subsection \<open>The batching loop\<close>

lemma batch_ok_Nil: "batch_ok p []"
  by (simp add: batch_ok_def)

lemma list_all_update:
  "list_all (\<lambda>(key, m). P key m) b \<Longrightarrow> P k v \<Longrightarrow>
   list_all (\<lambda>(key, m). P key m) (AList.update k v b)"
  by (induction b) auto

lemma length_update_mem:
  "map_of b k = Some v \<Longrightarrow> length (AList.update k v' b) = length b"
  by (induction b) (auto split: if_splits)

lemma batchMessage_ok:
  assumes "batch_ok p b"
  shows "batch_ok p (fst (batchMessage p msg (b, w)))"
proof -
  have d: "distinct (map fst (AList.update (attributeId msg) msg b))"
    using assms by (simp add: batch_ok_def distinct_update)
  have a: "attributeId msg \<noteq> '''' \<Longrightarrow>
     list_all (\<lambda>(key, m). attributeId m = key \<and> key \<noteq> '''')
       (AList.update (attributeId msg) msg b)"
    using assms
      list_all_update[of "\<lambda>key m. attributeId m = key \<and> key \<noteq> ''''" b "attributeId msg" msg]
    by (simp add: batch_ok_def)
  show ?thesis
    using assms d a by (auto simp: batchMessage_def Let_def batch_ok_def)
qed

lemma batchTimer_ok: "batch_ok p b \<Longrightarrow> batch_ok p (fst (batchTimer p (b, w)))"
  by (simp add: batchTimer_def batch_ok_def)

text \<open>
  Every batch that the loop reaches from the empty one is well formed, whatever the
  worker receives.
\<close>

lemma batch_ok_invariant:
  "batch_ok p (fst s) \<Longrightarrow> batch_ok p (fst (batch p choices s))"
proof (induction p choices s rule: batch.induct)
  case (2 p msg rest s)
  then show ?case using batchMessage_ok[of p "fst s" msg "snd s"] by simp
next
  case (4 p rest s)
  then show ?case using batchTimer_ok[of p "fst s" "snd s"] by simp
qed simp_all

lemma batch_reaches_ok: "batch_ok p (fst (batch p choices ([], w)))"
  using batch_ok_invariant[of p "([], w)" choices] by (simp add: batch_ok_Nil)

text \<open>
  The two batches that the loop hands to \<open>send\<close>, the batch in hand when the timer
  fires and the batch with the received message put in, are keyed.
\<close>

lemma batch_ok_keyed: "batch_ok p b \<Longrightarrow> keyed b"
  by (auto simp: batch_ok_def keyed_def list_all_iff)

lemma batchMessage_flushes_keyed:
  assumes "batch_ok p b"
  shows "keyed (AList.update (attributeId msg) msg b)"
proof -
  have "list_all (\<lambda>(key, m). attributeId m = key) b"
    using assms by (auto simp: batch_ok_def list_all_iff)
  then have "list_all (\<lambda>(key, m). attributeId m = key) (AList.update (attributeId msg) msg b)"
    using list_all_update[of "\<lambda>key m. attributeId m = key" b "attributeId msg" msg] by simp
  moreover have "distinct (map fst (AList.update (attributeId msg) msg b))"
    using assms by (simp add: batch_ok_def distinct_update)
  ultimately show ?thesis by (simp add: keyed_def)
qed

text \<open>
  Claim C3. One received message, in a batch of the loop. A message without an \<open>id\<close>
  attribute (or with an empty one) is acknowledged and counted as \<open>MissingID\<close>, and the
  batch stays as it was. A message whose id is already in the batch has the message
  stored before it acknowledged and \<open>DuplicateID\<close> counted, and takes its place: the
  batch has the same size, the other ids keep their messages. In every case the ids of
  the batch stay distinct, so it holds at most one message per id.
\<close>

theorem batch_dedup:
  assumes ok: "batch_ok p b"
    and step: "batchMessage p msg (b, w) = (b', w')"
  shows "(attributeId msg = '''' \<longrightarrow>
            b' = b \<and> acks w' = (acks w)(msg := acks w msg + 1) \<and> nacks w' = nacks w \<and>
            handledCounter w' = (handledCounter w)(MissingID := handledCounter w MissingID + 1)) \<and>
         (\<forall>previous. attributeId msg \<noteq> '''' \<and> map_of b (attributeId msg) = Some previous \<longrightarrow>
            acks w' = (acks w)(previous := acks w previous + 1) \<and> nacks w' = nacks w \<and>
            handledCounter w' = (handledCounter w)(DuplicateID := handledCounter w DuplicateID + 1) \<and>
            map_of b' (attributeId msg) = Some msg \<and>
            (\<forall>k. k \<noteq> attributeId msg \<longrightarrow> map_of b' k = map_of b k) \<and>
            length b' = length b) \<and>
         distinct (map fst b')"
proof (intro conjI allI impI)
  assume "attributeId msg = ''''"
  with step have "b' = b"
    "w' = Inc MissingID (Ack msg (w\<lparr>receivedCounter := receivedCounter w + 1\<rparr>))"
    by (auto simp: batchMessage_def Let_def)
  then show "b' = b" "acks w' = (acks w)(msg := acks w msg + 1)" "nacks w' = nacks w"
    "handledCounter w' = (handledCounter w)(MissingID := handledCounter w MissingID + 1)"
    by (simp_all add: world_simps)
next
  fix previous
  assume a: "attributeId msg \<noteq> '''' \<and> map_of b (attributeId msg) = Some previous"
  then have ne: "b \<noteq> []" by auto
  with ok have small: "int (length b) < flushSize p" by (simp add: batch_ok_def)
  have len: "length (AList.update (attributeId msg) msg b) = length b"
    using a by (simp add: length_update_mem)
  from step a small len
  have b': "b' = AList.update (attributeId msg) msg b"
    and w': "w' = Inc DuplicateID (logWarn ''Message with duplicate id''
                    (Ack previous (w\<lparr>receivedCounter := receivedCounter w + 1\<rparr>)))"
    by (auto simp: batchMessage_def Let_def)
  show "acks w' = (acks w)(previous := acks w previous + 1)" "nacks w' = nacks w"
    "handledCounter w' = (handledCounter w)(DuplicateID := handledCounter w DuplicateID + 1)"
    by (simp_all add: w' world_simps)
  show "map_of b' (attributeId msg) = Some msg" by (simp add: b' update_conv')
  show "length b' = length b" by (simp add: b' len)
  fix k assume "k \<noteq> attributeId msg"
  then show "map_of b' k = map_of b k" by (simp add: b' update_conv')
next
  have "batch_ok p (fst (batchMessage p msg (b, w)))" using ok by (rule batchMessage_ok)
  with step show "distinct (map fst b')" by (simp add: batch_ok_def)
qed

text \<open>
  The theorem at two inputs: a second message with the id \<open>a\<close> arrives while the first
  is in the batch, and a message with no attribute at all arrives.
\<close>

theorem batch_dedup_witness:
  "batch_ok persister0 [(''a'', message ''1'' ''a'' None)] \<and>
   batchMessage persister0 (message ''2'' ''a'' None) ([(''a'', message ''1'' ''a'' None)], world0)
     = ([(''a'', message ''2'' ''a'' None)],
        Inc DuplicateID (logWarn ''Message with duplicate id''
          (Ack (message ''1'' ''a'' None) (world0\<lparr>receivedCounter := 1\<rparr>)))) \<and>
   acks (Inc DuplicateID (logWarn ''Message with duplicate id''
          (Ack (message ''1'' ''a'' None) (world0\<lparr>receivedCounter := 1\<rparr>))))
     (message ''1'' ''a'' None) = 1 \<and>
   batchMessage persister0 \<lparr>m_ID = ''3'', m_Data = None, m_Attributes = []\<rparr>
       ([(''a'', message ''1'' ''a'' None)], world0)
     = ([(''a'', message ''1'' ''a'' None)],
        Inc MissingID (Ack \<lparr>m_ID = ''3'', m_Data = None, m_Attributes = []\<rparr>
          (world0\<lparr>receivedCounter := 1\<rparr>))) \<and>
   handledCounter (Inc MissingID (Ack \<lparr>m_ID = ''3'', m_Data = None, m_Attributes = []\<rparr>
          (world0\<lparr>receivedCounter := 1\<rparr>))) MissingID = 1"
proof -
  have ok: "batch_ok persister0 [(''a'', message ''1'' ''a'' None)]"
    by (simp add: batch_ok_def persister0_def message_def attributeId_def)
  have step: "batchMessage persister0 (message ''2'' ''a'' None)
       ([(''a'', message ''1'' ''a'' None)], world0)
     = ([(''a'', message ''2'' ''a'' None)],
        Inc DuplicateID (logWarn ''Message with duplicate id''
          (Ack (message ''1'' ''a'' None) (world0\<lparr>receivedCounter := 1\<rparr>))))"
    by (simp add: batchMessage_def persister0_def message_def attributeId_def world0_def Let_def)
  have step': "batchMessage persister0 \<lparr>m_ID = ''3'', m_Data = None, m_Attributes = []\<rparr>
       ([(''a'', message ''1'' ''a'' None)], world0)
     = ([(''a'', message ''1'' ''a'' None)],
        Inc MissingID (Ack \<lparr>m_ID = ''3'', m_Data = None, m_Attributes = []\<rparr>
          (world0\<lparr>receivedCounter := 1\<rparr>)))"
    by (simp add: batchMessage_def persister0_def attributeId_def world0_def Let_def)
  from batch_dedup[OF ok step] batch_dedup[OF ok step'] ok step step' show ?thesis
    by (simp add: message_def attributeId_def world0_def)
qed

subsection \<open>Goal enrichment\<close>

lemma getEvaluations_marshal_ok:
  "fst (getEvaluations p e environmentNamespace w) = (ue, r, None) \<Longrightarrow>
   snd (fst (marshalGoalEvent p e environmentNamespace w)) = (False, None) \<and>
   map_of (fst (fst (marshalGoalEvent p e environmentNamespace w))) ''evaluations''
     = Some (JArray (formatEvaluations ue))"
  by (cases "getEvaluations p e environmentNamespace w")
     (simp add: marshalGoalEvent_def Let_def update_conv')

lemma getEvaluations_marshal_err:
  "fst (getEvaluations p e environmentNamespace w) = (ue, r, Some err) \<Longrightarrow>
   fst (marshalGoalEvent p e environmentNamespace w) = ([], r, Some err)"
  by (cases "getEvaluations p e environmentNamespace w")
     (simp add: marshalGoalEvent_def Let_def)

text \<open>
  Claim C2. Where the evaluations of a goal event come from. For the source
  \<open>GOAL_BATCH\<close> the stored evaluations of (user id, environment, tag) are used; when the
  storage answers \<open>ErrKeyNotFound\<close> the result is that of the \<open>EvaluateFeatures\<close> RPC with
  the user of the event, and any other error of the storage is returned as retriable.
  For another source an empty tag selects the evaluations of the event itself, and a
  non-empty tag the stored ones, where \<open>ErrKeyNotFound\<close> gives the empty list without an
  error (marshalling then logs the warning only) and any other error is returned as
  retriable. The evaluations that are selected are the ones written to the record.
\<close>

theorem getEvaluations_sources:
  "(ge_SourceId e = GOAL_BATCH \<longrightarrow>
      (\<forall>ue. GetUserEvaluations p (ge_UserId e) environmentNamespace (ge_Tag e) = Inr ue \<longrightarrow>
         fst (getEvaluations p e environmentNamespace w) = (ue, False, None)) \<and>
      (GetUserEvaluations p (ge_UserId e) environmentNamespace (ge_Tag e) = Inl ErrKeyNotFound \<longrightarrow>
         fst (getEvaluations p e environmentNamespace w) =
           (case EvaluateFeatures p (ge_User e) environmentNamespace (ge_Tag e) of
              Inr evaluations \<Rightarrow> (evaluations, False, None)
            | Inl err \<Rightarrow> ([], False, Some err))) \<and>
      (\<forall>err. GetUserEvaluations p (ge_UserId e) environmentNamespace (ge_Tag e) = Inl err \<and>
           err \<noteq> ErrKeyNotFound \<longrightarrow>
         fst (getEvaluations p e environmentNamespace w) = ([], True, Some err) \<and>
         fst (marshalGoalEvent p e environmentNamespace w) = ([], True, Some err))) \<and>
   (ge_SourceId e \<noteq> GOAL_BATCH \<and> ge_Tag e = '''' \<longrightarrow>
      fst (getEvaluations p e environmentNamespace w) = (ge_Evaluations e, False, None)) \<and>
   (ge_SourceId e \<noteq> GOAL_BATCH \<and> ge_Tag e \<noteq> '''' \<longrightarrow>
      (\<forall>ue. GetUserEvaluations p (ge_UserId e) environmentNamespace (ge_Tag e) = Inr ue \<longrightarrow>
         fst (getEvaluations p e environmentNamespace w) = (ue, False, None)) \<and>
      (GetUserEvaluations p (ge_UserId e) environmentNamespace (ge_Tag e) = Inl ErrKeyNotFound \<longrightarrow>
         getEvaluations p e environmentNamespace w = (([], False, None), w) \<and>
         snd (fst (marshalGoalEvent p e environmentNamespace w)) = (False, None) \<and>
         snd (marshalGoalEvent p e environmentNamespace w)
           = logWarn ''Goal event has no evaluations'' w) \<and>
      (\<forall>err. GetUserEvaluations p (ge_UserId e) environmentNamespace (ge_Tag e) = Inl err \<and>
           err \<noteq> ErrKeyNotFound \<longrightarrow>
         fst (getEvaluations p e environmentNamespace w) = ([], True, Some err) \<and>
         fst (marshalGoalEvent p e environmentNamespace w) = ([], True, Some err))) \<and>
   (\<forall>ue r. fst (getEvaluations p e environmentNamespace w) = (ue, r, None) \<longrightarrow>
      map_of (fst (fst (marshalGoalEvent p e environmentNamespace w))) ''evaluations''
        = Some (JArray (formatEvaluations ue)))"
proof (intro conjI impI allI)
  fix ue r
  assume "fst (getEvaluations p e environmentNamespace w) = (ue, r, None)"
  then show "map_of (fst (fst (marshalGoalEvent p e environmentNamespace w))) ''evaluations''
        = Some (JArray (formatEvaluations ue))"
    using getEvaluations_marshal_ok by blast
qed (auto simp: getEvaluations_def getCurrentUserEvaluations_def marshalGoalEvent_def Let_def
       formatEvaluations_def split: sum.splits)

text \<open>
  The theorem at four inputs: a goal batch event whose user has nothing stored, an
  event without a tag, an event with a tag and nothing stored, and an event with a tag
  while the storage is unavailable.
\<close>

theorem getEvaluations_sources_witness:
  "fst (getEvaluations (persister0\<lparr>EvaluateFeatures := \<lambda>user environmentNamespace tag. Inr [evaluation0]\<rparr>)
          (goal0 GOAL_BATCH ''ios'') ''ns'' world0) = ([evaluation0], False, None) \<and>
   fst (getEvaluations persister0 (goal0 (SourceId_other ''IOS'') '''') ''ns'' world0)
     = ([evaluation0], False, None) \<and>
   getEvaluations persister0 (goal0 (SourceId_other ''IOS'') ''ios'') ''ns'' world0
     = (([], False, None), world0) \<and>
   fst (marshalGoalEvent
          (persister0\<lparr>GetUserEvaluations := \<lambda>userID environmentNamespace tag. Inl (ErrOther ''unavailable'')\<rparr>)
          (goal0 (SourceId_other ''IOS'') ''ios'') ''ns'' world0)
     = ([], True, Some (ErrOther ''unavailable''))"
  using
    getEvaluations_sources[where e = "goal0 GOAL_BATCH ''ios''" and environmentNamespace = "''ns''"
      and w = world0
      and p = "persister0\<lparr>EvaluateFeatures := \<lambda>user environmentNamespace tag. Inr [evaluation0]\<rparr>"]
    getEvaluations_sources[where e = "goal0 (SourceId_other ''IOS'') ''''"
      and environmentNamespace = "''ns''" and w = world0 and p = persister0]
    getEvaluations_sources[where e = "goal0 (SourceId_other ''IOS'') ''ios''"
      and environmentNamespace = "''ns''" and w = world0 and p = persister0]
    getEvaluations_sources[where e = "goal0 (SourceId_other ''IOS'') ''ios''"
      and environmentNamespace = "''ns''" and w = world0
      and p = "persister0\<lparr>GetUserEvaluations := \<lambda>userID environmentNamespace tag. Inl (ErrOther ''unavailable'')\<rparr>"]
  by (simp add: goal0_def persister0_def)

subsection \<open>The row store\<close>

lemma sameEffects_refl: "sameEffects w w"
  by (simp add: sameEffects_def)

lemma sameEffects_trans: "sameEffects a b \<Longrightarrow> sameEffects b c \<Longrightarrow> sameEffects a c"
  by (simp add: sameEffects_def)

lemma sameEffects_sym: "sameEffects a b \<Longrightarrow> sameEffects b a"
  by (simp add: sameEffects_def)

lemma sameEffects_log:
  "sameEffects w w' \<Longrightarrow> sameEffects (logError s w) w'"
  "sameEffects w w' \<Longrightarrow> sameEffects w (logError s w')"
  "sameEffects w w' \<Longrightarrow> sameEffects (logWarn s w) w'"
  "sameEffects w w' \<Longrightarrow> sameEffects w (logWarn s w')"
  by (simp_all add: sameEffects_def world_simps)

lemma getEvaluations_fst:
  "fst (getEvaluations p e environmentNamespace w) = fst (getEvaluations p e environmentNamespace w')"
  by (auto simp: getEvaluations_def split: prod.splits option.splits sum.splits)

lemma getEvaluations_same: "sameEffects w (snd (getEvaluations p e environmentNamespace w))"
  by (auto simp: getEvaluations_def sameEffects_log sameEffects_refl
      split: prod.splits option.splits sum.splits)

lemma getEvaluations_postgres:
  "getEvaluations (p\<lparr>postgresClient := c\<rparr>) e environmentNamespace w
     = getEvaluations p e environmentNamespace w"
  by (simp add: getEvaluations_def getCurrentUserEvaluations_def
      split: sum.split prod.split option.split)

lemma marshalGoalEvent_fst:
  "fst (marshalGoalEvent p e environmentNamespace w) = fst (marshalGoalEvent p e environmentNamespace w')"
  using getEvaluations_fst[of p e environmentNamespace w w']
  by (cases "getEvaluations p e environmentNamespace w"; cases "getEvaluations p e environmentNamespace w'")
     (auto simp: marshalGoalEvent_def Let_def split: option.splits)

lemma marshalGoalEvent_same: "sameEffects w (snd (marshalGoalEvent p e environmentNamespace w))"
  using getEvaluations_same[of w p e environmentNamespace]
  by (cases "getEvaluations p e environmentNamespace w")
     (auto simp: marshalGoalEvent_def Let_def sameEffects_log split: option.splits)

lemma marshalEvent_fst:
  "fst (marshalEvent p event environmentNamespace w) = fst (marshalEvent p event environmentNamespace w')"
  by (cases event)
     (simp_all add: marshalEvaluationEvent_def marshalUserEvent_def Let_def marshalGoalEvent_fst)

lemma marshalEvent_same: "sameEffects w (snd (marshalEvent p event environmentNamespace w))"
  by (cases event)
     (simp_all add: marshalEvaluationEvent_def marshalUserEvent_def Let_def marshalGoalEvent_same
        sameEffects_refl)

lemma marshalEvent_postgres:
  "marshalEvent (p\<lparr>postgresClient := c\<rparr>) event environmentNamespace w
     = marshalEvent p event environmentNamespace w"
  by (cases event)
     (simp_all add: marshalEvaluationEvent_def marshalUserEvent_def marshalGoalEvent_def
        getEvaluations_postgres)

lemma createEvent_same:
  "sameEffects w (snd (createEvent p client event eid environmentNamespace w))"
proof (cases event)
  case (GoalEventM e)
  then show ?thesis
    using getEvaluations_same[of w p e environmentNamespace]
    by (cases "getEvaluations p e environmentNamespace w")
       (auto simp: createGoalEvent_def Let_def sameEffects_log split: option.splits)
qed (auto simp: createEvaluationEvent_def createUserEvent_def sameEffects_log sameEffects_refl
       split: option.splits)

text \<open>The world after the row store step of \<open>sendEvent\<close>.\<close>

lemma sendEvent_shape:
  "sendEvent p environmentNamespace (eid, event) (evs, fails, w) = (evs', fails', w') \<Longrightarrow>
   sameEffects w w' \<and>
   (case snd (snd (fst (marshalEvent p event environmentNamespace w))) of
      Some err \<Rightarrow> evs' = evs \<and>
        fails' = fails(eid \<mapsto> fst (snd (fst (marshalEvent p event environmentNamespace w))))
    | None \<Rightarrow> evs' = AList.update eid (fst (fst (marshalEvent p event environmentNamespace w))) evs \<and>
        fails' = fails)"
proof -
  assume a: "sendEvent p environmentNamespace (eid, event) (evs, fails, w) = (evs', fails', w')"
  define w1 where "w1 = (case postgresClient p of
                 None \<Rightarrow> w
               | Some client \<Rightarrow>
                   (case createEvent p client event eid environmentNamespace w of
                      (Some err, w') \<Rightarrow> logError ''failed to store an event'' w'
                    | (None, w') \<Rightarrow> w'))"
  have s1: "sameEffects w w1"
  proof (cases "postgresClient p")
    case None
    then show ?thesis by (simp add: w1_def sameEffects_refl)
  next
    case (Some client)
    obtain r x where c: "createEvent p client event eid environmentNamespace w = (r, x)"
      by (metis prod.exhaust)
    with createEvent_same[of w p client event eid environmentNamespace]
    have "sameEffects w x" by simp
    with Some c show ?thesis
      by (cases r) (simp_all add: w1_def sameEffects_log sameEffects_sym)
  qed
  have f: "fst (marshalEvent p event environmentNamespace w1) = fst (marshalEvent p event environmentNamespace w)"
    by (rule marshalEvent_fst)
  have s2: "sameEffects w1 (snd (marshalEvent p event environmentNamespace w1))"
    by (rule marshalEvent_same)
  obtain j r e where f': "fst (marshalEvent p event environmentNamespace w) = (j, r, e)"
    by (metis prod.exhaust)
  obtain w2 where m: "marshalEvent p event environmentNamespace w1 = ((j, r, e), w2)"
    using f f' by (metis prod.collapse)
  have s2': "sameEffects w1 w2" using s2 m by simp
  have s3: "sameEffects w w2" using s1 s2' by (rule sameEffects_trans)
  have r: "sendEvent p environmentNamespace (eid, event) (evs, fails, w) =
      (case e of
         Some err \<Rightarrow> (evs, fails(eid \<mapsto> r),
             if \<not> r then logError ''failed to marshal an unrepeatable event'' w2 else w2)
       | None \<Rightarrow> (AList.update eid j evs, fails, w2))"
    using m by (cases e) (simp_all add: sendEvent_def w1_def Let_def)
  show ?thesis
  proof (cases e)
    case None
    with a r f' s3 show ?thesis by simp
  next
    case (Some err)
    with a r f' s3 show ?thesis by (auto simp: sameEffects_log sameEffects_sym)
  qed
qed


lemma fold_sendEvent_same:
  "fold (sendEvent p environmentNamespace) events (evs, fails, w) = (evs', fails', w') \<Longrightarrow>
   sameEffects w w'"
proof (induction events arbitrary: evs fails w)
  case Nil
  then show ?case by (simp add: sameEffects_refl)
next
  case (Cons x events)
  obtain eid event where x: "x = (eid, event)" by (cases x)
  obtain a b c where s: "sendEvent p environmentNamespace (eid, event) (evs, fails, w) = (a, b, c)"
    by (metis prod.exhaust)
  from sendEvent_shape[OF s] have "sameEffects w c" by simp
  moreover from Cons.prems x s have "sameEffects c w'" using Cons.IH by simp
  ultimately show ?case by (rule sameEffects_trans)
qed

lemma sendEnvironment_same:
  "sendEnvironment p (environmentNamespace, events) (fails, w) = (fails', w') \<Longrightarrow> sameEffects w w'"
proof -
  assume a: "sendEnvironment p (environmentNamespace, events) (fails, w) = (fails', w')"
  obtain evs f1 w1 where f: "fold (sendEvent p environmentNamespace) events ([], fails, w) = (evs, f1, w1)"
    by (metis prod.exhaust)
  have "sameEffects w w1" using fold_sendEvent_same[OF f] .
  with a f show ?thesis
    by (auto simp: sendEnvironment_def sameEffects_log sameEffects_sym
        split: if_splits prod.splits option.splits)
qed

lemma fold_sendEnvironment_same:
  "fold (sendEnvironment p) envEvents (fails, w) = (fails', w') \<Longrightarrow> sameEffects w w'"
proof (induction envEvents arbitrary: fails w)
  case Nil
  then show ?case by (simp add: sameEffects_refl)
next
  case (Cons x envEvents)
  obtain environmentNamespace events where x: "x = (environmentNamespace, events)" by (cases x)
  obtain b c where s: "sendEnvironment p (environmentNamespace, events) (fails, w) = (b, c)"
    by (metis prod.exhaust)
  have "sameEffects w c" using sendEnvironment_same[OF s] .
  moreover from Cons.prems x s have "sameEffects c w'" using Cons.IH by simp
  ultimately show ?case by (rule sameEffects_trans)
qed

text \<open>The row store and the loop state.\<close>

lemma sendEvent_postgres:
  assumes "sendEvent p environmentNamespace x (evs, fails, w) = (a, b, c)"
    and "sendEvent (p\<lparr>postgresClient := client\<rparr>) environmentNamespace x (evs, fails, w') = (a', b', c')"
  shows "a = a' \<and> b = b'"
proof -
  obtain eid event where x: "x = (eid, event)" by (cases x)
  have m: "fst (marshalEvent (p\<lparr>postgresClient := client\<rparr>) event environmentNamespace w')
      = fst (marshalEvent p event environmentNamespace w)"
    by (simp add: marshalEvent_postgres marshalEvent_fst[of p event environmentNamespace w' w])
  from sendEvent_shape[OF assms(1)[unfolded x]] sendEvent_shape[OF assms(2)[unfolded x]] m
  show ?thesis by (auto split: option.splits)
qed

lemma fold_sendEvent_postgres:
  assumes "fold (sendEvent p environmentNamespace) events (evs, fails, w) = (a, b, c)"
    and "fold (sendEvent (p\<lparr>postgresClient := client\<rparr>) environmentNamespace) events (evs, fails, w')
           = (a', b', c')"
  shows "a = a' \<and> b = b'"
  using assms
proof (induction events arbitrary: evs fails w w')
  case Nil
  then show ?case by simp
next
  case (Cons x events)
  obtain e1 f1 w1 where s1: "sendEvent p environmentNamespace x (evs, fails, w) = (e1, f1, w1)"
    by (metis prod.exhaust)
  obtain e2 f2 w2 where s2:
    "sendEvent (p\<lparr>postgresClient := client\<rparr>) environmentNamespace x (evs, fails, w') = (e2, f2, w2)"
    by (metis prod.exhaust)
  from sendEvent_postgres[OF s1 s2] have "e1 = e2" "f1 = f2" by simp_all
  with Cons.prems s1 s2 Cons.IH[of e1 f1 w1 w2] show ?case by simp
qed

lemma sendEnvironment_postgres:
  assumes "sendEnvironment p x (fails, w) = (b, c)"
    and "sendEnvironment (p\<lparr>postgresClient := client\<rparr>) x (fails, w') = (b', c')"
  shows "b = b'"
proof -
  obtain environmentNamespace events where x: "x = (environmentNamespace, events)" by (cases x)
  obtain e1 f1 w1 where s1:
    "fold (sendEvent p environmentNamespace) events ([], fails, w) = (e1, f1, w1)"
    by (metis prod.exhaust)
  obtain e2 f2 w2 where s2:
    "fold (sendEvent (p\<lparr>postgresClient := client\<rparr>) environmentNamespace) events ([], fails, w')
       = (e2, f2, w2)"
    by (metis prod.exhaust)
  from fold_sendEvent_postgres[OF s1 s2] have "e1 = e2" "f1 = f2" by simp_all
  with assms x s1 s2 show ?thesis
    by (auto simp: sendEnvironment_def split: if_splits prod.splits)
qed

lemma fold_sendEnvironment_postgres:
  assumes "fold (sendEnvironment p) envEvents (fails, w) = (b, c)"
    and "fold (sendEnvironment (p\<lparr>postgresClient := client\<rparr>)) envEvents (fails, w') = (b', c')"
  shows "b = b'"
  using assms
proof (induction envEvents arbitrary: fails w w')
  case Nil
  then show ?case by simp
next
  case (Cons x envEvents)
  obtain f1 w1 where s1: "sendEnvironment p x (fails, w) = (f1, w1)"
    by (metis prod.exhaust)
  obtain f2 w2 where s2: "sendEnvironment (p\<lparr>postgresClient := client\<rparr>) x (fails, w') = (f2, w2)"
    by (metis prod.exhaust)
  from sendEnvironment_postgres[OF s1 s2] have "f1 = f2" .
  with Cons.prems s1 s2 Cons.IH[of f1 w1 w2] show ?case by simp
qed

lemma ackMessage_same:
  "sameEffects w w' \<Longrightarrow> sameEffects (ackMessage fails x w) (ackMessage fails x w')"
  by (cases x) (auto simp: ackMessage_def sameEffects_def world_simps split: option.splits)

lemma fold_ackMessage_same:
  "sameEffects w w' \<Longrightarrow> sameEffects (fold (ackMessage fails) ms w) (fold (ackMessage fails) ms w')"
  by (induction ms arbitrary: w w') (simp_all add: ackMessage_same)

lemma sendFails_same: "sameEffects (snd (extractEvents ms w)) (snd (sendFails p ms w))"
proof -
  obtain envEvents w1 where e: "extractEvents ms w = (envEvents, w1)" by (metis prod.exhaust)
  obtain f w2 where s: "fold (sendEnvironment p) envEvents (Map.empty, w1) = (f, w2)"
    by (metis prod.exhaust)
  from fold_sendEnvironment_same[OF s] e s show ?thesis by (simp add: sendFails_def)
qed

lemma sendFails_postgres:
  "fst (sendFails (p\<lparr>postgresClient := client\<rparr>) ms w) = fst (sendFails p ms w)"
proof -
  obtain envEvents w1 where e: "extractEvents ms w = (envEvents, w1)" by (metis prod.exhaust)
  obtain f w2 where s: "fold (sendEnvironment p) envEvents (Map.empty, w1) = (f, w2)"
    by (metis prod.exhaust)
  obtain f' w2' where s': "fold (sendEnvironment (p\<lparr>postgresClient := client\<rparr>)) envEvents (Map.empty, w1) = (f', w2')"
    by (metis prod.exhaust)
  from fold_sendEnvironment_postgres[OF s s'] e s s' show ?thesis by (simp add: sendFails_def)
qed

text \<open>
  Claim C8. The row store has no part in the accounting of a flush. Whatever client is
  configured, and whatever its inserts answer, the acknowledgements, the nacks and the
  counters after \<open>send\<close> are those of the persister without it, and so is the failure
  map: what the row store changes is the log.
\<close>

theorem send_row_store_frame:
  "acks (send (p\<lparr>postgresClient := client\<rparr>) ms w) = acks (send p ms w) \<and>
   nacks (send (p\<lparr>postgresClient := client\<rparr>) ms w) = nacks (send p ms w) \<and>
   handledCounter (send (p\<lparr>postgresClient := client\<rparr>) ms w) = handledCounter (send p ms w) \<and>
   receivedCounter (send (p\<lparr>postgresClient := client\<rparr>) ms w) = receivedCounter (send p ms w) \<and>
   fst (sendFails (p\<lparr>postgresClient := client\<rparr>) ms w) = fst (sendFails p ms w)"
proof -
  let ?p = "p\<lparr>postgresClient := client\<rparr>"
  obtain envEvents w1 where e: "extractEvents ms w = (envEvents, w1)" by (metis prod.exhaust)
  have f: "fst (sendFails ?p ms w) = fst (sendFails p ms w)" by (rule sendFails_postgres)
  have "sameEffects (snd (sendFails ?p ms w)) (snd (sendFails p ms w))"
    using sendFails_same[of ms w p] sendFails_same[of ms w ?p]
    by (meson sameEffects_sym sameEffects_trans)
  then have "sameEffects (fold (ackMessage (fst (sendFails p ms w))) ms (snd (sendFails ?p ms w)))
      (fold (ackMessage (fst (sendFails p ms w))) ms (snd (sendFails p ms w)))"
    by (rule fold_ackMessage_same)
  with e f have "sameEffects (send ?p ms w) (send p ms w)"
    by (simp add: send_def sameEffects_refl split: prod.splits) (metis fst_conv snd_conv)
  with f show ?thesis by (simp add: sameEffects_def)
qed

subsection \<open>The accounting of a flush\<close>

lemma ackMessage_acks:
  "acks (ackMessage fails (key, m) w) m' =
     acks w m' + (if m = m' \<and> fails key \<noteq> Some True then 1 else 0)"
  by (cases "fails key") (auto simp: ackMessage_def world_simps)

lemma ackMessage_nacks:
  "nacks (ackMessage fails (key, m) w) m' =
     nacks w m' + (if m = m' \<and> fails key = Some True then 1 else 0)"
  by (cases "fails key") (auto simp: ackMessage_def world_simps)

lemma ackMessage_handled:
  "handledCounter (ackMessage fails (key, m) w) c =
     handledCounter w c +
       (if c = (case fails key of None \<Rightarrow> OK | Some True \<Rightarrow> RepeatableError
                | Some False \<Rightarrow> NonRepeatableError) then 1 else 0)"
  by (cases "fails key") (auto simp: ackMessage_def world_simps)

lemma fold_ackMessage_acks:
  "acks (fold (ackMessage fails) ms w) m' =
     acks w m' + length (filter (\<lambda>(key, m). m = m' \<and> fails key \<noteq> Some True) ms)"
proof (induction ms arbitrary: w)
  case Nil
  then show ?case by simp
next
  case (Cons x ms)
  obtain key m where x: "x = (key, m)" by (cases x)
  show ?case using Cons.IH[of "ackMessage fails (key, m) w"] x
    by (simp add: ackMessage_acks)
qed

lemma fold_ackMessage_nacks:
  "nacks (fold (ackMessage fails) ms w) m' =
     nacks w m' + length (filter (\<lambda>(key, m). m = m' \<and> fails key = Some True) ms)"
proof (induction ms arbitrary: w)
  case Nil
  then show ?case by simp
next
  case (Cons x ms)
  obtain key m where x: "x = (key, m)" by (cases x)
  show ?case using Cons.IH[of "ackMessage fails (key, m) w"] x
    by (simp add: ackMessage_nacks)
qed

lemma fold_ackMessage_handled:
  "handledCounter (fold (ackMessage fails) ms w) c =
     handledCounter w c +
       length (filter (\<lambda>(key, m). c = (case fails key of None \<Rightarrow> OK | Some True \<Rightarrow> RepeatableError
                | Some False \<Rightarrow> NonRepeatableError)) ms)"
proof (induction ms arbitrary: w)
  case Nil
  then show ?case by simp
next
  case (Cons x ms)
  obtain key m where x: "x = (key, m)" by (cases x)
  show ?case using Cons.IH[of "ackMessage fails (key, m) w"] x
    by (simp add: ackMessage_handled)
qed

lemma filter_cong_set: "(\<And>x. x \<in> set xs \<Longrightarrow> P x = Q x) \<Longrightarrow> filter P xs = filter Q xs"
  by (induction xs) auto

lemma fold_ackMessage_OK:
  "handledCounter (fold (ackMessage fails) ms w) OK =
     handledCounter w OK + length (filter (\<lambda>(key, m). fails key = None) ms)"
proof -
  have "filter (\<lambda>(key, m). OK = (case fails key of None \<Rightarrow> OK | Some True \<Rightarrow> RepeatableError
                | Some False \<Rightarrow> NonRepeatableError)) ms = filter (\<lambda>(key, m). fails key = None) ms"
    by (rule filter_cong_set) (auto split: option.splits bool.splits)
  then show ?thesis by (simp add: fold_ackMessage_handled)
qed

lemma fold_ackMessage_RepeatableError:
  "handledCounter (fold (ackMessage fails) ms w) RepeatableError =
     handledCounter w RepeatableError + length (filter (\<lambda>(key, m). fails key = Some True) ms)"
proof -
  have "filter (\<lambda>(key, m). RepeatableError = (case fails key of None \<Rightarrow> OK | Some True \<Rightarrow> RepeatableError
                | Some False \<Rightarrow> NonRepeatableError)) ms = filter (\<lambda>(key, m). fails key = Some True) ms"
    by (rule filter_cong_set) (auto split: option.splits bool.splits)
  then show ?thesis by (simp add: fold_ackMessage_handled)
qed

lemma fold_ackMessage_NonRepeatableError:
  "handledCounter (fold (ackMessage fails) ms w) NonRepeatableError =
     handledCounter w NonRepeatableError + length (filter (\<lambda>(key, m). fails key = Some False) ms)"
proof -
  have "filter (\<lambda>(key, m). NonRepeatableError = (case fails key of None \<Rightarrow> OK | Some True \<Rightarrow> RepeatableError
                | Some False \<Rightarrow> NonRepeatableError)) ms = filter (\<lambda>(key, m). fails key = Some False) ms"
    by (rule filter_cong_set) (auto split: option.splits bool.splits)
  then show ?thesis by (simp add: fold_ackMessage_handled)
qed

lemma extractEvent_decodes:
  "decodes m \<Longrightarrow> snd (extractEvent (key, m) (envEvents, w)) = w"
  by (auto simp: extractEvent_def decodes_def split: option.splits)

lemma extractEvent_bad:
  "\<not> decodes m \<Longrightarrow> extractEvent (key, m) (envEvents, w) = (envEvents, handleBadMessage m w)"
  by (auto simp: extractEvent_def decodes_def split: option.splits)

lemma update_not_Nil: "AList.update k v xs \<noteq> []"
  by (cases xs) auto

lemma extractEvent_decodes_not_Nil:
  "decodes m \<Longrightarrow> fst (extractEvent (key, m) (envEvents, w)) \<noteq> []"
  by (auto simp: extractEvent_def decodes_def update_not_Nil split: option.splits)

lemma extractEvent_not_Nil:
  "envEvents \<noteq> [] \<Longrightarrow> fst (extractEvent x (envEvents, w)) \<noteq> []"
  by (cases x) (auto simp: extractEvent_def update_not_Nil split: option.splits)

lemma fold_extractEvent_not_Nil:
  "envEvents \<noteq> [] \<Longrightarrow> fst (fold extractEvent ms (envEvents, w)) \<noteq> []"
proof (induction ms arbitrary: envEvents w)
  case Nil
  then show ?case by simp
next
  case (Cons x ms)
  obtain a b where s: "extractEvent x (envEvents, w) = (a, b)" by (metis prod.exhaust)
  with extractEvent_not_Nil[OF Cons.prems, of x w] have "a \<noteq> []" by simp
  with Cons.IH[of a b] s show ?case by simp
qed

lemma fold_extractEvent_Nil_iff:
  "fst (fold extractEvent ms ([], w)) = [] \<longleftrightarrow> list_all (\<lambda>(key, m). \<not> decodes m) ms"
proof (induction ms arbitrary: w)
  case Nil
  then show ?case by simp
next
  case (Cons x ms)
  obtain key m where x: "x = (key, m)" by (cases x)
  show ?case
  proof (cases "decodes m")
    case True
    obtain a b where s: "extractEvent (key, m) ([], w) = (a, b)" by (metis prod.exhaust)
    with extractEvent_decodes_not_Nil[OF True, of key "[]" w] have "a \<noteq> []" by simp
    with fold_extractEvent_not_Nil[of a ms b] s x True show ?thesis by simp
  next
    case False
    with Cons.IH x show ?thesis by (simp add: extractEvent_bad)
  qed
qed

lemma fold_extractEvent_acks:
  "acks (snd (fold extractEvent ms (envEvents, w))) m' =
     acks w m' + length (filter (\<lambda>(key, m). m = m' \<and> \<not> decodes m) ms)"
proof (induction ms arbitrary: envEvents w)
  case Nil
  then show ?case by simp
next
  case (Cons x ms)
  obtain key m where x: "x = (key, m)" by (cases x)
  obtain a b where s: "extractEvent (key, m) (envEvents, w) = (a, b)" by (metis prod.exhaust)
  show ?case
  proof (cases "decodes m")
    case True
    with s extractEvent_decodes[OF True, of key envEvents w] have "b = w" by simp
    with Cons.IH[of a b] s x True show ?thesis by auto
  next
    case False
    with s have "b = handleBadMessage m w" by (simp add: extractEvent_bad)
    with Cons.IH[of a b] s x False show ?thesis
      by (auto simp: handleBadMessage_def world_simps)
  qed
qed

lemma fold_extractEvent_nacks:
  "nacks (snd (fold extractEvent ms (envEvents, w))) = nacks w"
proof (induction ms arbitrary: envEvents w)
  case Nil
  then show ?case by simp
next
  case (Cons x ms)
  obtain a b where s: "extractEvent x (envEvents, w) = (a, b)" by (metis prod.exhaust)
  then have "nacks b = nacks w"
    by (cases x) (auto simp: extractEvent_def handleBadMessage_def world_simps split: option.splits)
  with Cons.IH[of a b] s show ?case by simp
qed

lemma fold_extractEvent_handled:
  "handledCounter (snd (fold extractEvent ms (envEvents, w))) c =
     handledCounter w c + (if c = BadMessage then length (filter (\<lambda>(key, m). \<not> decodes m) ms) else 0)"
proof (induction ms arbitrary: envEvents w)
  case Nil
  then show ?case by simp
next
  case (Cons x ms)
  obtain key m where x: "x = (key, m)" by (cases x)
  obtain a b where s: "extractEvent (key, m) (envEvents, w) = (a, b)" by (metis prod.exhaust)
  show ?case
  proof (cases "decodes m")
    case True
    with s extractEvent_decodes[OF True, of key envEvents w] have "b = w" by simp
    with Cons.IH[of a b] s x True show ?thesis by auto
  next
    case False
    with s have "b = handleBadMessage m w" by (simp add: extractEvent_bad)
    with Cons.IH[of a b] s x False show ?thesis
      by (auto simp: handleBadMessage_def world_simps)
  qed
qed


lemma filter_eq_single:
  "distinct xs \<Longrightarrow> a \<in> set xs \<Longrightarrow> filter (\<lambda>y. y = a) xs = [a]"
  by (induction xs) (auto simp: filter_empty_conv)

lemma keyed_filter:
  assumes "keyed ms" and "(key, m) \<in> set ms"
  shows "filter (\<lambda>(k, x). x = m \<and> P k) ms = (if P key then [(key, m)] else [])"
proof -
  have d: "distinct ms" using assms(1) by (simp add: keyed_def distinct_map)
  have k: "\<And>k x. (k, x) \<in> set ms \<Longrightarrow> attributeId x = k"
    using assms(1) by (auto simp: keyed_def list_all_iff)
  have "filter (\<lambda>(k, x). x = m \<and> P k) ms = filter (\<lambda>y. y = (key, m) \<and> P key) ms"
    by (rule filter_cong_set) (use k assms(2) in auto)
  also have "\<dots> = (if P key then filter (\<lambda>y. y = (key, m)) ms else [])"
    by simp
  also have "\<dots> = (if P key then [(key, m)] else [])"
    using filter_eq_single[OF d assms(2)] by simp
  finally show ?thesis .
qed

lemma send_flushes:
  "list_ex (\<lambda>(key, m). decodes m) ms \<Longrightarrow>
   send p ms w = fold (ackMessage (fst (sendFails p ms w))) ms (snd (sendFails p ms w))"
proof -
  assume "list_ex (\<lambda>(key, m). decodes m) ms"
  then have "\<not> list_all (\<lambda>(key, m). \<not> decodes m) ms"
    by (auto simp: list_ex_iff list_all_iff)
  then have "fst (extractEvents ms w) \<noteq> []"
    by (simp add: extractEvents_def fold_extractEvent_Nil_iff)
  then show ?thesis
    by (cases "extractEvents ms w"; cases "sendFails p ms w") (simp add: send_def)
qed

lemma sendFails_effects:
  "acks (snd (sendFails p ms w)) m' = acks w m' + length (filter (\<lambda>(key, m). m = m' \<and> \<not> decodes m) ms)"
  "nacks (snd (sendFails p ms w)) = nacks w"
  "handledCounter (snd (sendFails p ms w)) c =
     handledCounter w c + (if c = BadMessage then length (filter (\<lambda>(key, m). \<not> decodes m) ms) else 0)"
  using sendFails_same[of ms w p]
    fold_extractEvent_acks[of ms "[]" w m'] fold_extractEvent_nacks[of ms "[]" w]
    fold_extractEvent_handled[of ms "[]" w c]
  by (simp_all add: sameEffects_def extractEvents_def)

lemma decodes_decoded: "decodes m \<longleftrightarrow> decoded m \<noteq> None"
  by (simp add: decodes_def decoded_def split: option.splits)

lemma send_decoded_message:
  assumes "keyed ms" and "(key, m) \<in> set ms" and "decodes m"
  shows "acks (send p ms w) m = acks w m + (if fst (sendFails p ms w) key \<noteq> Some True then 1 else 0)"
    and "nacks (send p ms w) m = nacks w m + (if fst (sendFails p ms w) key = Some True then 1 else 0)"
proof -
  let ?f = "fst (sendFails p ms w)"
  have "list_ex (\<lambda>(key, m). decodes m) ms"
    using assms(2,3) by (auto simp: list_ex_iff)
  then have s: "send p ms w = fold (ackMessage ?f) ms (snd (sendFails p ms w))"
    by (rule send_flushes)
  have bad: "filter (\<lambda>(k, y). y = m \<and> \<not> decodes y) ms = []"
    using assms(3) by (auto simp: filter_empty_conv)
  show "acks (send p ms w) m = acks w m + (if ?f key \<noteq> Some True then 1 else 0)"
    using keyed_filter[OF assms(1,2), of "\<lambda>k. ?f k \<noteq> Some True"] bad
    by (simp add: s fold_ackMessage_acks sendFails_effects)
  show "nacks (send p ms w) m = nacks w m + (if ?f key = Some True then 1 else 0)"
    using keyed_filter[OF assms(1,2), of "\<lambda>k. ?f k = Some True"]
    by (simp add: s fold_ackMessage_nacks sendFails_effects)
qed

lemma send_returns_early:
  assumes "list_all (\<lambda>(key, m). \<not> decodes m) ms"
  shows "send p ms w = logError ''all messages were bad'' (snd (extractEvents ms w))"
proof -
  from assms have "fst (extractEvents ms w) = []"
    by (simp add: extractEvents_def fold_extractEvent_Nil_iff)
  then show ?thesis
    by (cases "extractEvents ms w") (simp add: send_def)
qed

lemma send_early_message:
  assumes "keyed ms" and "list_all (\<lambda>(key, m). \<not> decodes m) ms" and "(key, m) \<in> set ms"
  shows "acks (send p ms w) m = acks w m + 1 \<and> nacks (send p ms w) m = nacks w m"
proof -
  have "filter (\<lambda>(k, x). x = m \<and> \<not> decodes x) ms = filter (\<lambda>(k, x). x = m \<and> True) ms"
    by (rule filter_cong_set) (use assms(2) in \<open>auto simp: list_all_iff\<close>)
  also have "\<dots> = [(key, m)]"
    using keyed_filter[OF assms(1) assms(3), of "\<lambda>k. True"] by simp
  finally have one: "length (filter (\<lambda>(k, x). x = m \<and> \<not> decodes x) ms) = 1" by simp
  show ?thesis
    by (simp add: send_returns_early[OF assms(2)] world_simps extractEvents_def
        fold_extractEvent_acks fold_extractEvent_nacks one)
qed

lemma send_early_handled:
  assumes "list_all (\<lambda>(key, m). \<not> decodes m) ms"
  shows "handledCounter (send p ms w) c =
    handledCounter w c + (if c = BadMessage then length ms else 0)"
proof -
  have "filter (\<lambda>(key, m). \<not> decodes m) ms = ms"
    using assms by (auto simp: list_all_iff filter_id_conv)
  then show ?thesis
    by (simp add: send_returns_early[OF assms] world_simps extractEvents_def fold_extractEvent_handled)
qed

text \<open>
  Claim C1, as amended. The claim speaks of every message of every flushed batch, but a
  batch in which no message decodes never reaches the last loop of \<open>send\<close>: the source
  returns after \<open>extractEvents\<close> (\<open>all messages were bad\<close>). The theorem has the two
  kinds of batch side by side.

  When at least one message decodes, every message of the batch that decodes gets the
  disposition of the ack policy, read off the failure map at its id: absent, it is
  acknowledged once; present with \<open>repeatable = true\<close>, it is nacked once and not
  acknowledged; present with \<open>repeatable = false\<close>, it is acknowledged once. When all
  messages decode, the counters \<open>OK\<close>, \<open>RepeatableError\<close> and \<open>NonRepeatableError\<close> grow
  by the number of messages of each kind.

  When no message decodes, the flush ends with the world that \<open>extractEvents\<close> leaves,
  but for the logged error: every message of the batch is acknowledged once and not
  nacked, the counter \<open>BadMessage\<close> grows by the size of the batch, and none of the
  counters \<open>OK\<close>, \<open>RepeatableError\<close> and \<open>NonRepeatableError\<close> moves.
\<close>

theorem send_ack_policy:
  assumes "keyed ms"
  shows "(list_ex (\<lambda>(key, m). decodes m) ms \<longrightarrow>
            (\<forall>(key, m) \<in> set ms. decodes m \<longrightarrow>
               (fst (sendFails p ms w) key = None \<longrightarrow>
                  acks (send p ms w) m = acks w m + 1 \<and> nacks (send p ms w) m = nacks w m) \<and>
               (fst (sendFails p ms w) key = Some True \<longrightarrow>
                  acks (send p ms w) m = acks w m \<and> nacks (send p ms w) m = nacks w m + 1) \<and>
               (fst (sendFails p ms w) key = Some False \<longrightarrow>
                  acks (send p ms w) m = acks w m + 1 \<and> nacks (send p ms w) m = nacks w m)) \<and>
            (list_all (\<lambda>(key, m). decodes m) ms \<longrightarrow>
               handledCounter (send p ms w) OK = handledCounter w OK +
                 length (filter (\<lambda>(key, m). fst (sendFails p ms w) key = None) ms) \<and>
               handledCounter (send p ms w) RepeatableError = handledCounter w RepeatableError +
                 length (filter (\<lambda>(key, m). fst (sendFails p ms w) key = Some True) ms) \<and>
               handledCounter (send p ms w) NonRepeatableError = handledCounter w NonRepeatableError +
                 length (filter (\<lambda>(key, m). fst (sendFails p ms w) key = Some False) ms))) \<and>
         (list_all (\<lambda>(key, m). \<not> decodes m) ms \<longrightarrow>
            send p ms w = logError ''all messages were bad'' (snd (extractEvents ms w)) \<and>
            (\<forall>(key, m) \<in> set ms.
               acks (send p ms w) m = acks w m + 1 \<and> nacks (send p ms w) m = nacks w m) \<and>
            handledCounter (send p ms w) BadMessage = handledCounter w BadMessage + length ms \<and>
            handledCounter (send p ms w) OK = handledCounter w OK \<and>
            handledCounter (send p ms w) RepeatableError = handledCounter w RepeatableError \<and>
            handledCounter (send p ms w) NonRepeatableError = handledCounter w NonRepeatableError)"
proof (intro conjI impI)
  assume ex: "list_ex (\<lambda>(key, m). decodes m) ms"
  let ?f = "fst (sendFails p ms w)"
  show "\<forall>(key, m) \<in> set ms. decodes m \<longrightarrow>
               (?f key = None \<longrightarrow>
                  acks (send p ms w) m = acks w m + 1 \<and> nacks (send p ms w) m = nacks w m) \<and>
               (?f key = Some True \<longrightarrow>
                  acks (send p ms w) m = acks w m \<and> nacks (send p ms w) m = nacks w m + 1) \<and>
               (?f key = Some False \<longrightarrow>
                  acks (send p ms w) m = acks w m + 1 \<and> nacks (send p ms w) m = nacks w m)"
  proof
    fix x assume x: "x \<in> set ms"
    obtain key m where km: "x = (key, m)" by (cases x)
    have "decodes m \<longrightarrow>
               (?f key = None \<longrightarrow>
                  acks (send p ms w) m = acks w m + 1 \<and> nacks (send p ms w) m = nacks w m) \<and>
               (?f key = Some True \<longrightarrow>
                  acks (send p ms w) m = acks w m \<and> nacks (send p ms w) m = nacks w m + 1) \<and>
               (?f key = Some False \<longrightarrow>
                  acks (send p ms w) m = acks w m + 1 \<and> nacks (send p ms w) m = nacks w m)"
    proof
      assume d: "decodes m"
      from send_decoded_message[OF assms x[unfolded km] d, of p w]
      show "(?f key = None \<longrightarrow>
                  acks (send p ms w) m = acks w m + 1 \<and> nacks (send p ms w) m = nacks w m) \<and>
               (?f key = Some True \<longrightarrow>
                  acks (send p ms w) m = acks w m \<and> nacks (send p ms w) m = nacks w m + 1) \<and>
               (?f key = Some False \<longrightarrow>
                  acks (send p ms w) m = acks w m + 1 \<and> nacks (send p ms w) m = nacks w m)"
        by simp
    qed
    with km show "case x of (key, m) \<Rightarrow> decodes m \<longrightarrow>
               (?f key = None \<longrightarrow>
                  acks (send p ms w) m = acks w m + 1 \<and> nacks (send p ms w) m = nacks w m) \<and>
               (?f key = Some True \<longrightarrow>
                  acks (send p ms w) m = acks w m \<and> nacks (send p ms w) m = nacks w m + 1) \<and>
               (?f key = Some False \<longrightarrow>
                  acks (send p ms w) m = acks w m + 1 \<and> nacks (send p ms w) m = nacks w m)"
      by simp
  qed
  have s: "send p ms w = fold (ackMessage ?f) ms (snd (sendFails p ms w))"
    using ex by (rule send_flushes)
  {
    assume all: "list_all (\<lambda>(key, m). decodes m) ms"
    show "handledCounter (send p ms w) OK = handledCounter w OK +
                length (filter (\<lambda>(key, m). ?f key = None) ms)"
      using all by (simp add: s fold_ackMessage_OK sendFails_effects)
    show "handledCounter (send p ms w) RepeatableError = handledCounter w RepeatableError +
                length (filter (\<lambda>(key, m). ?f key = Some True) ms)"
      using all by (simp add: s fold_ackMessage_RepeatableError sendFails_effects)
    show "handledCounter (send p ms w) NonRepeatableError = handledCounter w NonRepeatableError +
                length (filter (\<lambda>(key, m). ?f key = Some False) ms)"
      using all by (simp add: s fold_ackMessage_NonRepeatableError sendFails_effects)
  }
next
  assume bad: "list_all (\<lambda>(key, m). \<not> decodes m) ms"
  show "send p ms w = logError ''all messages were bad'' (snd (extractEvents ms w))"
    using bad by (rule send_returns_early)
  show "\<forall>(key, m) \<in> set ms.
          acks (send p ms w) m = acks w m + 1 \<and> nacks (send p ms w) m = nacks w m"
    using send_early_message[OF assms bad] by blast
  show "handledCounter (send p ms w) BadMessage = handledCounter w BadMessage + length ms"
    "handledCounter (send p ms w) OK = handledCounter w OK"
    "handledCounter (send p ms w) RepeatableError = handledCounter w RepeatableError"
    "handledCounter (send p ms w) NonRepeatableError = handledCounter w NonRepeatableError"
    by (simp_all add: send_early_handled[OF bad])
qed

lemmas send_defs = send_def sendFails_def extractEvents_def extractEvent_def sendEnvironment_def
  sendEvent_def marshalUserEvent_def marshalEvaluationEvent_def Let_def ackMessage_def
  handleBadMessage_def

lemmas input_defs = persister0_def persister1_def message_def world0_def envelope_def
  userEvent0_def batch3_def

lemma batch3_fails:
  "fst (sendFails persister1 batch3 world0) = [''c'' \<mapsto> False, ''b'' \<mapsto> True]"
  by (simp add: send_defs input_defs)

text \<open>
  The theorem at two batches. In the first, three messages all decode: \<open>a\<close> is written,
  \<open>b\<close> is failed by the datastore as repeatable, and \<open>c\<close> carries a metrics event, which
  does not marshal. In the second, neither of the two messages decodes.
\<close>

theorem send_ack_policy_witness:
  "keyed batch3 \<and> list_all (\<lambda>(key, m). decodes m) batch3 \<and>
   fst (sendFails persister1 batch3 world0) = [''c'' \<mapsto> False, ''b'' \<mapsto> True] \<and>
   acks (send persister1 batch3 world0) (message ''1'' ''a'' (envelope ''a'' userEvent0)) = 1 \<and>
   nacks (send persister1 batch3 world0) (message ''1'' ''a'' (envelope ''a'' userEvent0)) = 0 \<and>
   acks (send persister1 batch3 world0) (message ''2'' ''b'' (envelope ''b'' userEvent0)) = 0 \<and>
   nacks (send persister1 batch3 world0) (message ''2'' ''b'' (envelope ''b'' userEvent0)) = 1 \<and>
   acks (send persister1 batch3 world0) (message ''3'' ''c'' (envelope ''c'' MetricsEventM)) = 1 \<and>
   nacks (send persister1 batch3 world0) (message ''3'' ''c'' (envelope ''c'' MetricsEventM)) = 0 \<and>
   handledCounter (send persister1 batch3 world0) OK = 1 \<and>
   handledCounter (send persister1 batch3 world0) RepeatableError = 1 \<and>
   handledCounter (send persister1 batch3 world0) NonRepeatableError = 1 \<and>
   keyed [(''a'', message ''1'' ''a'' None), (''b'', message ''2'' ''b'' None)] \<and>
   list_all (\<lambda>(key, m). \<not> decodes m)
     [(''a'', message ''1'' ''a'' None), (''b'', message ''2'' ''b'' None)] \<and>
   acks (send persister1 [(''a'', message ''1'' ''a'' None), (''b'', message ''2'' ''b'' None)]
           world0) (message ''1'' ''a'' None) = 1 \<and>
   acks (send persister1 [(''a'', message ''1'' ''a'' None), (''b'', message ''2'' ''b'' None)]
           world0) (message ''2'' ''b'' None) = 1 \<and>
   nacks (send persister1 [(''a'', message ''1'' ''a'' None), (''b'', message ''2'' ''b'' None)]
           world0) (message ''2'' ''b'' None) = 0 \<and>
   handledCounter (send persister1 [(''a'', message ''1'' ''a'' None),
           (''b'', message ''2'' ''b'' None)] world0) BadMessage = 2 \<and>
   handledCounter (send persister1 [(''a'', message ''1'' ''a'' None),
           (''b'', message ''2'' ''b'' None)] world0) OK = 0 \<and>
   handledCounter (send persister1 [(''a'', message ''1'' ''a'' None),
           (''b'', message ''2'' ''b'' None)] world0) RepeatableError = 0 \<and>
   handledCounter (send persister1 [(''a'', message ''1'' ''a'' None),
           (''b'', message ''2'' ''b'' None)] world0) NonRepeatableError = 0"
proof -
  let ?bad = "[(''a'', message ''1'' ''a'' None), (''b'', message ''2'' ''b'' None)]"
  have k: "keyed batch3"
    by (simp add: keyed_def batch3_def message_def attributeId_def)
  have a: "list_all (\<lambda>(key, m). decodes m) batch3"
    by (simp add: batch3_def decodes_def message_def envelope_def)
  have e: "list_ex (\<lambda>(key, m). decodes m) batch3"
    by (simp add: batch3_def decodes_def message_def envelope_def)
  have w: "acks world0 = (\<lambda>m. 0)" "nacks world0 = (\<lambda>m. 0)" "handledCounter world0 = (\<lambda>c. 0)"
    by (simp_all add: world0_def)
  have d: "decodes (message ''1'' ''a'' (envelope ''a'' userEvent0))"
    "decodes (message ''2'' ''b'' (envelope ''b'' userEvent0))"
    "decodes (message ''3'' ''c'' (envelope ''c'' MetricsEventM))"
    by (simp_all add: decodes_def message_def envelope_def)
  have kb: "keyed ?bad"
    by (simp add: keyed_def message_def attributeId_def)
  have b: "list_all (\<lambda>(key, m). \<not> decodes m) ?bad"
    by (simp add: decodes_def message_def)
  have good: "fst (sendFails persister1 batch3 world0) = [''c'' \<mapsto> False, ''b'' \<mapsto> True] \<and>
   acks (send persister1 batch3 world0) (message ''1'' ''a'' (envelope ''a'' userEvent0)) = 1 \<and>
   nacks (send persister1 batch3 world0) (message ''1'' ''a'' (envelope ''a'' userEvent0)) = 0 \<and>
   acks (send persister1 batch3 world0) (message ''2'' ''b'' (envelope ''b'' userEvent0)) = 0 \<and>
   nacks (send persister1 batch3 world0) (message ''2'' ''b'' (envelope ''b'' userEvent0)) = 1 \<and>
   acks (send persister1 batch3 world0) (message ''3'' ''c'' (envelope ''c'' MetricsEventM)) = 1 \<and>
   nacks (send persister1 batch3 world0) (message ''3'' ''c'' (envelope ''c'' MetricsEventM)) = 0 \<and>
   handledCounter (send persister1 batch3 world0) OK = 1 \<and>
   handledCounter (send persister1 batch3 world0) RepeatableError = 1 \<and>
   handledCounter (send persister1 batch3 world0) NonRepeatableError = 1"
    using send_ack_policy[OF k, of persister1 world0] e a d w
    by (simp add: batch3_fails) (simp add: batch3_def)
  have allbad: "acks (send persister1 ?bad world0) (message ''1'' ''a'' None) = 1 \<and>
   acks (send persister1 ?bad world0) (message ''2'' ''b'' None) = 1 \<and>
   nacks (send persister1 ?bad world0) (message ''2'' ''b'' None) = 0 \<and>
   handledCounter (send persister1 ?bad world0) BadMessage = 2 \<and>
   handledCounter (send persister1 ?bad world0) OK = 0 \<and>
   handledCounter (send persister1 ?bad world0) RepeatableError = 0 \<and>
   handledCounter (send persister1 ?bad world0) NonRepeatableError = 0"
    using send_ack_policy[OF kb, of persister1 world0, THEN conjunct2, THEN mp, OF b,
        THEN conjunct2] w
    by simp
  from k a kb b good allbad show ?thesis by blast
qed

text \<open>
  The claim C1 as stated fails at a batch whose only message does not decode: its id is
  absent from the failure map (there is none), the message is acknowledged by
  \<open>handleBadMessage\<close> and counted as \<open>BadMessage\<close>, and the counter \<open>OK\<close> does not move.
\<close>

theorem send_all_bad_counterexample:
  "fst (sendFails persister0 [(''a'', message ''1'' ''a'' None)] world0) ''a'' = None \<and>
   acks (send persister0 [(''a'', message ''1'' ''a'' None)] world0) (message ''1'' ''a'' None) = 1 \<and>
   handledCounter (send persister0 [(''a'', message ''1'' ''a'' None)] world0) OK = 0 \<and>
   handledCounter (send persister0 [(''a'', message ''1'' ''a'' None)] world0) BadMessage = 1"
  by (simp add: send_defs world_simps persister0_def message_def world0_def)

text \<open>
  Claim C7 at a batch of two messages, the first of which does not decode. The claim
  says that such a message is acknowledged exactly once and takes no further part in
  the accounting. \<open>extractEvents\<close> acknowledges it and counts \<open>BadMessage\<close>, but it stays
  in \<open>messages\<close>, and the last loop of \<open>send\<close> acknowledges it a second time and counts
  it as \<open>OK\<close>: after the flush of these two messages it has two acknowledgements and the
  counter \<open>OK\<close> stands at 2.
\<close>

theorem send_bad_message_acked_twice:
  "acks (send persister0 [(''a'', message ''1'' ''a'' None),
                          (''b'', message ''2'' ''b'' (envelope ''b'' userEvent0))] world0)
     (message ''1'' ''a'' None) = 2 \<and>
   handledCounter (send persister0 [(''a'', message ''1'' ''a'' None),
                          (''b'', message ''2'' ''b'' (envelope ''b'' userEvent0))] world0)
     BadMessage = 1 \<and>
   handledCounter (send persister0 [(''a'', message ''1'' ''a'' None),
                          (''b'', message ''2'' ''b'' (envelope ''b'' userEvent0))] world0)
     OK = 2"
  by (simp add: send_defs world_simps input_defs)

text \<open>
  What a failing row store does show in: with a client whose inserts fail, the flush of
  one user event logs the two errors, and the message is counted as \<open>OK\<close> all the same.
\<close>

lemma send_row_store_failure_logged:
  "logs (send (persister0\<lparr>postgresClient := Some (\<lambda>row. Some (ErrOther ''insert failed''))\<rparr>)
           [(''a'', message ''1'' ''a'' (envelope ''a'' userEvent0))] world0)
     = [Error ''Failed to store user event'', Error ''failed to store an event''] \<and>
   handledCounter (send (persister0\<lparr>postgresClient := Some (\<lambda>row. Some (ErrOther ''insert failed''))\<rparr>)
           [(''a'', message ''1'' ''a'' (envelope ''a'' userEvent0))] world0) OK = 1 \<and>
   logs (send persister0 [(''a'', message ''1'' ''a'' (envelope ''a'' userEvent0))] world0) = []"
  by (simp add: send_defs world_simps input_defs createUserEvent_def)

subsection \<open>The failure map\<close>

lemma marshalEvent_unexpected:
  "unexpected event \<Longrightarrow>
   marshalEvent p event environmentNamespace w = (([], False, Some ErrUnexpectedMessageType), w)"
  by (cases event) (simp_all add: unexpected_def)

lemma sendEvent_unexpected:
  assumes "unexpected event"
    and "sendEvent p environmentNamespace (k, event) (evs, fails, w) = (evs', fails', w')"
  shows "evs' = evs \<and> fails' = fails(k \<mapsto> False)"
  using sendEvent_shape[OF assms(2)] marshalEvent_unexpected[OF assms(1), of p environmentNamespace w]
  by simp

lemma sendEvent_other:
  assumes "sendEvent p environmentNamespace (eid, event) (evs, fails, w) = (evs', fails', w')"
    and "k \<noteq> eid"
  shows "fails' k = fails k \<and> (k \<in> fst ` set evs' \<longleftrightarrow> k \<in> fst ` set evs)"
  using sendEvent_shape[OF assms(1)] assms(2)
  by (auto simp: dom_update split: option.splits)

lemma fold_sendEvent_other:
  "fold (sendEvent p environmentNamespace) events (evs, fails, w) = (evs', fails', w') \<Longrightarrow>
   k \<notin> fst ` set events \<Longrightarrow>
   fails' k = fails k \<and> (k \<in> fst ` set evs' \<longleftrightarrow> k \<in> fst ` set evs)"
proof (induction events arbitrary: evs fails w)
  case Nil
  then show ?case by simp
next
  case (Cons x events)
  obtain eid event where x: "x = (eid, event)" by (cases x)
  obtain a b c where s: "sendEvent p environmentNamespace (eid, event) (evs, fails, w) = (a, b, c)"
    by (metis prod.exhaust)
  from Cons.prems(2) x have ne: "k \<noteq> eid" and nin: "k \<notin> fst ` set events" by auto
  from sendEvent_other[OF s ne] have 1: "b k = fails k" "k \<in> fst ` set a \<longleftrightarrow> k \<in> fst ` set evs"
    by simp_all
  from Cons.prems(1) x s have "fold (sendEvent p environmentNamespace) events (a, b, c) = (evs', fails', w')"
    by simp
  from Cons.IH[OF this nin] 1 show ?case by simp
qed

lemma fold_sendEvent_unexpected:
  "fold (sendEvent p environmentNamespace) events (evs, fails, w) = (evs', fails', w') \<Longrightarrow>
   distinct (map fst events) \<Longrightarrow> (k, event) \<in> set events \<Longrightarrow> unexpected event \<Longrightarrow>
   fails' k = Some False \<and> (k \<in> fst ` set evs' \<longleftrightarrow> k \<in> fst ` set evs)"
proof (induction events arbitrary: evs fails w)
  case Nil
  then show ?case by simp
next
  case (Cons x events)
  obtain eid e where x: "x = (eid, e)" by (cases x)
  obtain a b c where s: "sendEvent p environmentNamespace (eid, e) (evs, fails, w) = (a, b, c)"
    by (metis prod.exhaust)
  from Cons.prems(1) x s
  have rest: "fold (sendEvent p environmentNamespace) events (a, b, c) = (evs', fails', w')"
    by simp
  show ?case
  proof (cases "x = (k, event)")
    case True
    with x have eq: "eid = k" "e = event" by simp_all
    from Cons.prems(2) x eq have nin: "k \<notin> fst ` set events" by simp
    from sendEvent_unexpected[OF Cons.prems(4) s[unfolded eq]]
    have "a = evs" "b = fails(k \<mapsto> False)" by simp_all
    with fold_sendEvent_other[OF rest nin] show ?thesis by simp
  next
    case False
    with Cons.prems(3) have mem: "(k, event) \<in> set events" by simp
    with Cons.prems(2) x have ne: "k \<noteq> eid" by (auto simp: image_iff)
    from Cons.prems(2) have d: "distinct (map fst events)" by simp
    from sendEvent_other[OF s ne] Cons.IH[OF rest d mem Cons.prems(4)] show ?thesis by simp
  qed
qed

lemma fold_fs_other:
  "k \<notin> fst ` set fs \<Longrightarrow> fold (\<lambda>(eid, f) fails'. fails'(eid \<mapsto> f)) fs fails k = fails k"
  by (induction fs arbitrary: fails) (auto split: prod.splits)

lemma sendEnvironment_keeps:
  assumes "reportsOnlyWritten p"
    and "fold (sendEvent p environmentNamespace) events ([], fails, w) = (evs, fails1, w1)"
    and "k \<notin> fst ` set evs"
    and "sendEnvironment p (environmentNamespace, events) (fails, w) = (fails', w')"
  shows "fails' k = fails1 k"
proof -
  have "fst ` set (fst (datastore_Write p environmentNamespace evs)) \<subseteq> fst ` set evs"
    using assms(1) by (simp add: reportsOnlyWritten_def)
  with assms(3) have "k \<notin> fst ` set (fst (datastore_Write p environmentNamespace evs))" by blast
  then have "fold (\<lambda>(eid, f) fails'. fails'(eid \<mapsto> f))
      (fst (datastore_Write p environmentNamespace evs)) fails1 k = fails1 k"
    by (rule fold_fs_other)
  moreover have "fails' = (if length evs > 0
      then fold (\<lambda>(eid, f) fails'. fails'(eid \<mapsto> f))
             (fst (datastore_Write p environmentNamespace evs)) fails1
      else fails1)"
    using assms(2,4)
    by (cases "datastore_Write p environmentNamespace evs")
       (auto simp: sendEnvironment_def split: if_splits)
  ultimately show ?thesis by simp
qed

lemma sendEnvironment_other:
  assumes "reportsOnlyWritten p"
    and "sendEnvironment p (environmentNamespace, events) (fails, w) = (fails', w')"
    and "k \<notin> fst ` set events"
  shows "fails' k = fails k"
proof -
  obtain evs f1 w1 where f: "fold (sendEvent p environmentNamespace) events ([], fails, w) = (evs, f1, w1)"
    by (metis prod.exhaust)
  from fold_sendEvent_other[OF f assms(3)] have "f1 k = fails k" "k \<notin> fst ` set evs" by simp_all
  with sendEnvironment_keeps[OF assms(1) f _ assms(2)] show ?thesis by simp
qed

lemma sendEnvironment_unexpected:
  assumes "reportsOnlyWritten p"
    and "sendEnvironment p (environmentNamespace, events) (fails, w) = (fails', w')"
    and "distinct (map fst events)" and "(k, event) \<in> set events" and "unexpected event"
  shows "fails' k = Some False"
proof -
  obtain evs f1 w1 where f: "fold (sendEvent p environmentNamespace) events ([], fails, w) = (evs, f1, w1)"
    by (metis prod.exhaust)
  from fold_sendEvent_unexpected[OF f assms(3,4,5)]
  have "f1 k = Some False" "k \<notin> fst ` set evs" by simp_all
  with sendEnvironment_keeps[OF assms(1) f _ assms(2)] show ?thesis by simp
qed

lemma fold_sendEnvironment_other:
  "reportsOnlyWritten p \<Longrightarrow>
   fold (sendEnvironment p) envEvents (fails, w) = (fails', w') \<Longrightarrow>
   \<forall>(environmentNamespace, events) \<in> set envEvents. k \<notin> fst ` set events \<Longrightarrow>
   fails' k = fails k"
proof (induction envEvents arbitrary: fails w)
  case Nil
  then show ?case by simp
next
  case (Cons x envEvents)
  obtain environmentNamespace events where x: "x = (environmentNamespace, events)" by (cases x)
  obtain b c where s: "sendEnvironment p (environmentNamespace, events) (fails, w) = (b, c)"
    by (metis prod.exhaust)
  from Cons.prems(3) x have "k \<notin> fst ` set events" by simp
  from sendEnvironment_other[OF Cons.prems(1) s this] have "b k = fails k" .
  moreover from Cons.prems x s have "fails' k = b k"
    using Cons.IH[of b c] by simp
  ultimately show ?case by simp
qed

lemma fold_sendEnvironment_unexpected:
  "reportsOnlyWritten p \<Longrightarrow>
   fold (sendEnvironment p) envEvents (fails, w) = (fails', w') \<Longrightarrow>
   (environmentNamespace, events) \<in> set envEvents \<Longrightarrow>
   distinct (map fst events) \<Longrightarrow> (k, event) \<in> set events \<Longrightarrow> unexpected event \<Longrightarrow>
   \<forall>(e', events') \<in> set envEvents.
      (e', events') \<noteq> (environmentNamespace, events) \<longrightarrow> k \<notin> fst ` set events' \<Longrightarrow>
   fails' k = Some False"
proof (induction envEvents arbitrary: fails w)
  case Nil
  then show ?case by simp
next
  case (Cons x envEvents)
  obtain e1 events1 where x: "x = (e1, events1)" by (cases x)
  obtain b c where s: "sendEnvironment p (e1, events1) (fails, w) = (b, c)"
    by (metis prod.exhaust)
  from Cons.prems(2) x s have rest: "fold (sendEnvironment p) envEvents (b, c) = (fails', w')"
    by simp
  show ?case
  proof (cases "(environmentNamespace, events) \<in> set envEvents")
    case True
    from Cons.prems(7) have "\<forall>(e', events') \<in> set envEvents.
      (e', events') \<noteq> (environmentNamespace, events) \<longrightarrow> k \<notin> fst ` set events'" by simp
    from Cons.IH[OF Cons.prems(1) rest True Cons.prems(4,5,6) this] show ?thesis .
  next
    case False
    with Cons.prems(3) x have eq: "e1 = environmentNamespace" "events1 = events" by simp_all
    from sendEnvironment_unexpected[OF Cons.prems(1) s[unfolded eq] Cons.prems(4,5,6)]
    have b: "b k = Some False" .
    have "\<forall>(e', events') \<in> set envEvents. k \<notin> fst ` set events'"
    proof (intro ballI)
      fix z assume z: "z \<in> set envEvents"
      obtain e' events' where ze: "z = (e', events')" by (cases z)
      from z ze False have "(e', events') \<noteq> (environmentNamespace, events)" by blast
      with Cons.prems(7) z ze have "k \<notin> fst ` set events'" by auto
      with ze show "case z of (e', events') \<Rightarrow> k \<notin> fst ` set events'" by simp
    qed
    from fold_sendEnvironment_other[OF Cons.prems(1) rest this] b show ?thesis by simp
  qed
qed


subsection \<open>What \<open>extractEvents\<close> collects\<close>

lemma extractEvent_decoded:
  "decoded m = Some (e, i, inner) \<Longrightarrow>
   fst (extractEvent (key, m) (acc, w)) =
     AList.update e (case map_of acc e of
                       Some innerEvents \<Rightarrow> AList.update i inner innerEvents
                     | None \<Rightarrow> [(i, inner)]) acc"
  by (auto simp: extractEvent_def decoded_def split: option.splits)

lemma extractEvent_undecoded:
  "decoded m = None \<Longrightarrow> fst (extractEvent (key, m) (acc, w)) = acc"
  by (auto simp: extractEvent_def decoded_def split: option.splits)

lemma lookupEvent_extractEvent:
  "decoded m = Some (e, i, inner) \<Longrightarrow>
   lookupEvent (fst (extractEvent (key, m) (acc, w))) e' i' =
     (if e' = e \<and> i' = i then Some inner else lookupEvent acc e' i')"
  by (auto simp: extractEvent_decoded lookupEvent_def update_conv' split: option.splits)

lemma fold_extractEvent_origin:
  "lookupEvent (fst (fold extractEvent ms (acc, w))) e i = Some inner \<Longrightarrow>
   lookupEvent acc e i = Some inner \<or> (\<exists>(key, m) \<in> set ms. decoded m = Some (e, i, inner))"
proof (induction ms arbitrary: acc w)
  case Nil
  then show ?case by simp
next
  case (Cons x ms)
  obtain key m where x: "x = (key, m)" by (cases x)
  obtain a b where s: "extractEvent (key, m) (acc, w) = (a, b)" by (metis prod.exhaust)
  from Cons.prems x s have "lookupEvent (fst (fold extractEvent ms (a, b))) e i = Some inner"
    by simp
  from Cons.IH[OF this]
  consider "lookupEvent a e i = Some inner" | "\<exists>(key, m) \<in> set ms. decoded m = Some (e, i, inner)"
    by blast
  then show ?case
  proof cases
    case 1
    show ?thesis
    proof (cases "decoded m")
      case None
      with extractEvent_undecoded[OF None, of key acc w] s 1 show ?thesis by simp
    next
      case (Some t)
      obtain e0 i0 inner0 where t: "t = (e0, i0, inner0)" by (cases t)
      from lookupEvent_extractEvent[OF Some[unfolded t], of key acc w e i] s 1 Some t x
      show ?thesis by (auto split: if_splits)
    qed
  next
    case 2
    then show ?thesis by auto
  qed
qed

lemma fold_extractEvent_presence:
  "lookupEvent acc e i \<noteq> None \<or> (\<exists>(key, m) \<in> set ms. \<exists>inner. decoded m = Some (e, i, inner)) \<Longrightarrow>
   lookupEvent (fst (fold extractEvent ms (acc, w))) e i \<noteq> None"
proof (induction ms arbitrary: acc w)
  case Nil
  then show ?case by simp
next
  case (Cons x ms)
  obtain key m where x: "x = (key, m)" by (cases x)
  obtain a b where s: "extractEvent (key, m) (acc, w) = (a, b)" by (metis prod.exhaust)
  have "lookupEvent a e i \<noteq> None \<or> (\<exists>(key, m) \<in> set ms. \<exists>inner. decoded m = Some (e, i, inner))"
  proof (cases "decoded m")
    case None
    with extractEvent_undecoded[OF None, of key acc w] s Cons.prems x show ?thesis by auto
  next
    case (Some t)
    obtain e0 i0 inner0 where t: "t = (e0, i0, inner0)" by (cases t)
    from lookupEvent_extractEvent[OF Some[unfolded t], of key acc w e i] s Cons.prems x Some t
    show ?thesis by (auto split: if_splits)
  qed
  from Cons.IH[OF this, of b] x s show ?case by simp
qed

lemma set_update_subset: "set (AList.update k v al) \<subseteq> insert (k, v) (set al)"
  by (induction al) auto

lemma extractEvent_wellformed:
  assumes "wellformed acc"
  shows "wellformed (fst (extractEvent (key, m) (acc, w)))"
proof (cases "decoded m")
  case None
  with assms show ?thesis by (simp add: extractEvent_undecoded)
next
  case (Some t)
  obtain e i inner where t: "t = (e, i, inner)" by (cases t)
  let ?v = "case map_of acc e of Some innerEvents \<Rightarrow> AList.update i inner innerEvents
            | None \<Rightarrow> [(i, inner)]"
  have v: "distinct (map fst ?v)"
  proof (cases "map_of acc e")
    case None
    then show ?thesis by simp
  next
    case (Some innerEvents)
    then have "(e, innerEvents) \<in> set acc" by (rule map_of_SomeD)
    with assms have "distinct (map fst innerEvents)" by (auto simp: wellformed_def)
    with Some show ?thesis by (simp add: distinct_update)
  qed
  have "distinct (map fst (AList.update e ?v acc))"
    using assms by (simp add: wellformed_def distinct_update)
  moreover have "\<forall>(e', events) \<in> set (AList.update e ?v acc). distinct (map fst events)"
    using set_update_subset[of e ?v acc] assms v by (auto simp: wellformed_def)
  ultimately show ?thesis
    using extractEvent_decoded[OF Some[unfolded t], of key acc w] by (simp add: wellformed_def)
qed

lemma fold_extractEvent_wellformed:
  "wellformed acc \<Longrightarrow> wellformed (fst (fold extractEvent ms (acc, w)))"
proof (induction ms arbitrary: acc w)
  case Nil
  then show ?case by simp
next
  case (Cons x ms)
  obtain key m where x: "x = (key, m)" by (cases x)
  obtain a b where s: "extractEvent (key, m) (acc, w) = (a, b)" by (metis prod.exhaust)
  with extractEvent_wellformed[OF Cons.prems, of key m w] have "wellformed a" by simp
  from Cons.IH[OF this, of b] x s show ?case by simp
qed

lemma keyed_unique:
  "keyed ms \<Longrightarrow> (key, m) \<in> set ms \<Longrightarrow> (key, m') \<in> set ms \<Longrightarrow> m' = m"
  by (metis keyed_def map_of_is_SomeI option.inject)

lemma idsAgree_key:
  "idsAgree ms \<Longrightarrow> (key, m) \<in> set ms \<Longrightarrow> decoded m = Some (e, i, inner) \<Longrightarrow> i = key"
  by (auto simp: idsAgree_def list_all_iff decoded_def split: option.splits)

lemma sendFails_unexpected:
  assumes k: "keyed ms" and a: "idsAgree ms" and r: "reportsOnlyWritten p"
    and m: "(key, m) \<in> set ms" and d: "decoded m = Some (e, i, event)" and u: "unexpected event"
  shows "fst (sendFails p ms w) key = Some False"
proof -
  let ?E = "fst (extractEvents ms w)"
  have i: "i = key" using a m d by (rule idsAgree_key)
  have wf: "wellformed ?E"
    using fold_extractEvent_wellformed[of "[]" ms w] by (simp add: extractEvents_def wellformed_def)
  have origin: "\<And>e' inner. lookupEvent ?E e' key = Some inner \<Longrightarrow> e' = e \<and> inner = event"
  proof -
    fix e' inner assume "lookupEvent ?E e' key = Some inner"
    with fold_extractEvent_origin[of ms "[]" w e' key inner]
    obtain key' m' where m': "(key', m') \<in> set ms" "decoded m' = Some (e', key, inner)"
      by (auto simp: extractEvents_def lookupEvent_def)
    from idsAgree_key[OF a m'] have "key' = key" by simp
    with keyed_unique[OF k m] m' have "m' = m" by simp
    with m' d show "e' = e \<and> inner = event" by simp
  qed
  have "lookupEvent ?E e key \<noteq> None"
    using fold_extractEvent_presence[of "[]" e key ms w] m d i
    by (auto simp: extractEvents_def)
  with origin have here: "lookupEvent ?E e key = Some event" by auto
  then obtain events where ev: "map_of ?E e = Some events" "map_of events key = Some event"
    by (auto simp: lookupEvent_def split: option.splits)
  then have mem: "(e, events) \<in> set ?E" "(key, event) \<in> set events"
    by (auto dest: map_of_SomeD)
  with wf have dist: "distinct (map fst events)" by (auto simp: wellformed_def)
  have others: "\<forall>(e', events') \<in> set ?E. (e', events') \<noteq> (e, events) \<longrightarrow> key \<notin> fst ` set events'"
  proof (intro ballI)
    fix z assume z: "z \<in> set ?E"
    obtain e' events' where ze: "z = (e', events')" by (cases z)
    have "(e', events') \<noteq> (e, events) \<longrightarrow> key \<notin> fst ` set events'"
    proof
      assume ne: "(e', events') \<noteq> (e, events)"
      from wf z ze have m': "map_of ?E e' = Some events'"
        by (simp add: wellformed_def)
      with ev ne have "e' \<noteq> e" by auto
      with origin have "lookupEvent ?E e' key = None" by (cases "lookupEvent ?E e' key") auto
      with m' have "map_of events' key = None" by (simp add: lookupEvent_def)
      then show "key \<notin> fst ` set events'" by (simp add: map_of_eq_None_iff)
    qed
    with ze show "case z of (e', events') \<Rightarrow> (e', events') \<noteq> (e, events) \<longrightarrow> key \<notin> fst ` set events'"
      by simp
  qed
  obtain f w2 where s: "fold (sendEnvironment p) ?E (Map.empty, snd (extractEvents ms w)) = (f, w2)"
    by (metis prod.exhaust)
  from fold_sendEnvironment_unexpected[OF r s mem(1) dist mem(2) u others]
  have "f key = Some False" .
  with s show ?thesis by (cases "extractEvents ms w") (simp add: sendFails_def)
qed

text \<open>
  Claim C9, as amended. For a payload of a type that the switch does not name,
  \<open>marshalEvent\<close> returns \<open>ErrUnexpectedMessageType\<close> with \<open>repeatable = false\<close>, for every
  persister. That the message is then acknowledged and counted as \<open>NonRepeatableError\<close>
  needs more than the claim says: the failure is recorded under the id of the envelope
  and looked up under the \<open>id\<close> attribute, so the two must agree in the batch, and the
  datastore must not report ids it was not given. Then the entry of the message in the
  failure map is \<open>false\<close>, its turn in the last loop acknowledges it and counts
  \<open>NonRepeatableError\<close>, and after the flush it has one acknowledgement more, no nack
  more, and the counter has grown.
\<close>

theorem unexpected_type_dropped:
  assumes "unexpected event"
  shows "fst (marshalEvent p event environmentNamespace w) = ([], False, Some ErrUnexpectedMessageType) \<and>
    (keyed ms \<and> idsAgree ms \<and> reportsOnlyWritten p \<and> (key, m) \<in> set ms \<and>
       decoded m = Some (environmentNamespace, eid, event) \<longrightarrow>
         fst (sendFails p ms w) key = Some False \<and>
         (\<forall>x. ackMessage (fst (sendFails p ms w)) (key, m) x = Inc NonRepeatableError (Ack m x)) \<and>
         acks (send p ms w) m = acks w m + 1 \<and>
         nacks (send p ms w) m = nacks w m \<and>
         handledCounter (send p ms w) NonRepeatableError > handledCounter w NonRepeatableError)"
proof (intro conjI allI impI)
  show "fst (marshalEvent p event environmentNamespace w) = ([], False, Some ErrUnexpectedMessageType)"
    using assms by (simp add: marshalEvent_unexpected)
next
  fix x
  assume h: "keyed ms \<and> idsAgree ms \<and> reportsOnlyWritten p \<and> (key, m) \<in> set ms \<and>
       decoded m = Some (environmentNamespace, eid, event)"
  then have f: "fst (sendFails p ms w) key = Some False"
    using sendFails_unexpected[of ms p key m environmentNamespace eid event w] assms by simp
  have dm: "decodes m" using h by (simp add: decodes_decoded)
  show "fst (sendFails p ms w) key = Some False" by (rule f)
  show "ackMessage (fst (sendFails p ms w)) (key, m) x = Inc NonRepeatableError (Ack m x)"
    by (simp add: ackMessage_def f)
  show "acks (send p ms w) m = acks w m + 1" "nacks (send p ms w) m = nacks w m"
    using send_decoded_message[of ms key m p w] h dm f by simp_all
  have "list_ex (\<lambda>(key, m). decodes m) ms"
    using h dm by (auto simp: list_ex_iff)
  then have s: "send p ms w = fold (ackMessage (fst (sendFails p ms w))) ms (snd (sendFails p ms w))"
    by (rule send_flushes)
  have "filter (\<lambda>(k, y). fst (sendFails p ms w) k = Some False) ms \<noteq> []"
    using h f by (auto simp: filter_empty_conv)
  then have "length (filter (\<lambda>(k, y). fst (sendFails p ms w) k = Some False) ms) > 0"
    by simp
  then show "handledCounter (send p ms w) NonRepeatableError > handledCounter w NonRepeatableError"
    by (simp add: s fold_ackMessage_NonRepeatableError sendFails_effects)
qed

text \<open>The theorem at the metrics event of the batch of three messages.\<close>

theorem unexpected_type_dropped_witness:
  "unexpected MetricsEventM \<and> keyed batch3 \<and> idsAgree batch3 \<and> reportsOnlyWritten persister0 \<and>
   (''c'', message ''3'' ''c'' (envelope ''c'' MetricsEventM)) \<in> set batch3 \<and>
   decoded (message ''3'' ''c'' (envelope ''c'' MetricsEventM)) = Some (''ns'', ''c'', MetricsEventM) \<and>
   fst (marshalEvent persister0 MetricsEventM ''ns'' world0) = ([], False, Some ErrUnexpectedMessageType) \<and>
   fst (sendFails persister0 batch3 world0) ''c'' = Some False \<and>
   acks (send persister0 batch3 world0) (message ''3'' ''c'' (envelope ''c'' MetricsEventM)) = 1 \<and>
   nacks (send persister0 batch3 world0) (message ''3'' ''c'' (envelope ''c'' MetricsEventM)) = 0 \<and>
   handledCounter (send persister0 batch3 world0) NonRepeatableError > 0"
proof -
  have u: "unexpected MetricsEventM" by (simp add: unexpected_def)
  have k: "keyed batch3"
    by (simp add: keyed_def batch3_def message_def attributeId_def)
  have a: "idsAgree batch3"
    by (simp add: idsAgree_def batch3_def message_def envelope_def)
  have r: "reportsOnlyWritten persister0"
    by (simp add: reportsOnlyWritten_def persister0_def)
  have m: "(''c'', message ''3'' ''c'' (envelope ''c'' MetricsEventM)) \<in> set batch3"
    by (simp add: batch3_def)
  have d: "decoded (message ''3'' ''c'' (envelope ''c'' MetricsEventM)) = Some (''ns'', ''c'', MetricsEventM)"
    by (simp add: decoded_def message_def envelope_def)
  have w: "acks world0 = (\<lambda>m. 0)" "nacks world0 = (\<lambda>m. 0)" "handledCounter world0 = (\<lambda>c. 0)"
    by (simp_all add: world0_def)
  from unexpected_type_dropped[OF u, where p = persister0 and environmentNamespace = "''ns''"
      and w = world0 and ms = batch3 and key = "''c''" and eid = "''c''"
      and m = "message ''3'' ''c'' (envelope ''c'' MetricsEventM)"] u k a r m d w
  show ?thesis by simp
qed

text \<open>
  The claim C9 as stated fails at a message whose \<open>id\<close> attribute is \<open>a\<close> while the
  envelope inside says \<open>b\<close>: the metrics event fails to marshal under \<open>b\<close>, the last loop
  finds nothing under \<open>a\<close>, and the message is counted as \<open>OK\<close>.
\<close>

theorem unexpected_type_counterexample:
  "unexpected MetricsEventM \<and>
   decoded (message ''1'' ''a'' (envelope ''b'' MetricsEventM)) = Some (''ns'', ''b'', MetricsEventM) \<and>
   handledCounter (send persister0 [(''a'', message ''1'' ''a'' (envelope ''b'' MetricsEventM))] world0)
     NonRepeatableError = 0 \<and>
   handledCounter (send persister0 [(''a'', message ''1'' ''a'' (envelope ''b'' MetricsEventM))] world0)
     OK = 1"
  by (simp add: unexpected_def decoded_def send_defs world_simps input_defs)

section \<open>Properties of the gateway\<close>

subsection \<open>Admission\<close>

text \<open>
  Claim C4. The admission check answers \<open>ErrBadRole\<close> when the role of the key differs
  from the required role, \<open>ErrDisabledAPIKey\<close> when the role matches and the key or its
  environment is disabled, and no error when the role matches and neither flag is set.
\<close>

theorem checkEnvironmentAPIKey_cases:
  "(key_Role (eak_ApiKey k) \<noteq> role \<longrightarrow> checkEnvironmentAPIKey k role = Some ErrBadRole) \<and>
   (key_Role (eak_ApiKey k) = role \<and> (key_Disabled (eak_ApiKey k) \<or> eak_EnvironmentDisabled k) \<longrightarrow>
      checkEnvironmentAPIKey k role = Some ErrDisabledAPIKey) \<and>
   (key_Role (eak_ApiKey k) = role \<and> \<not> key_Disabled (eak_ApiKey k) \<and> \<not> eak_EnvironmentDisabled k \<longrightarrow>
      checkEnvironmentAPIKey k role = None)"
  by (simp add: checkEnvironmentAPIKey_def)

text \<open>
  The theorem at the four rows of the table of \<open>TestGrpcCheckEnvironmentAPIKey\<close>; the
  model answers what the test expects.
\<close>

theorem checkEnvironmentAPIKey_cases_witness:
  "checkEnvironmentAPIKey (environmentAPIKey0 SERVICE False False) SDK = Some ErrBadRole \<and>
   checkEnvironmentAPIKey (environmentAPIKey0 SDK False True) SDK = Some ErrDisabledAPIKey \<and>
   checkEnvironmentAPIKey (environmentAPIKey0 SDK True False) SDK = Some ErrDisabledAPIKey \<and>
   checkEnvironmentAPIKey (environmentAPIKey0 SDK False False) SDK = None"
  using checkEnvironmentAPIKey_cases[of "environmentAPIKey0 SERVICE False False" SDK]
    checkEnvironmentAPIKey_cases[of "environmentAPIKey0 SDK False True" SDK]
    checkEnvironmentAPIKey_cases[of "environmentAPIKey0 SDK True False" SDK]
    checkEnvironmentAPIKey_cases[of "environmentAPIKey0 SDK False False" SDK]
  by (simp add: environmentAPIKey0_def)

subsection \<open>GetEvaluations\<close>

text \<open>
  The model at the rows of the tests, for any fingerprint and any engine: with no
  feature loaded the response is \<open>FULL\<close> with nil evaluations and an empty id
  (\<open>TestGrpcGetEvaluationsZeroFeature\<close>); with features loaded, a request without id or
  with the id \<open>evaluation-id\<close> is answered with the evaluations and the id over the loaded
  features, and a request with that id is answered with the id and nil evaluations
  (\<open>TestGrpcGetEvaluationsUserEvaluationsID\<close>).
\<close>

lemma GetEvaluations_test_table:
  assumes "user_Id user \<noteq> ''''" and "features \<noteq> []"
    and "gw_Features gw = Inr features"
    and "gw_evaluate gw features user ''test'' = Inr evaluations"
    and "gw_UserEvaluationsID gw (user_Id user) (user_Data user) features = ueid"
  shows "GetEvaluations (gw\<lparr>gw_Features := Inr []\<rparr>)
           \<lparr>req_Tag = ''test'', req_User = Some user, req_UserEvaluationsId = None\<rparr>
         = Inr \<lparr>resp_State = FULL, resp_Evaluations = None, resp_UserEvaluationsId = ''''\<rparr>"
    and "GetEvaluations gw
           \<lparr>req_Tag = ''test'', req_User = Some user, req_UserEvaluationsId = None\<rparr>
         = Inr \<lparr>resp_State = FULL, resp_Evaluations = Some evaluations,
                resp_UserEvaluationsId = ueid\<rparr>"
    and "GetEvaluations gw
           \<lparr>req_Tag = ''test'', req_User = Some user, req_UserEvaluationsId = Some ueid\<rparr>
         = Inr \<lparr>resp_State = FULL, resp_Evaluations = None, resp_UserEvaluationsId = ueid\<rparr>"
    and "ueid \<noteq> ''evaluation-id'' \<Longrightarrow>
         GetEvaluations gw
           \<lparr>req_Tag = ''test'', req_User = Some user,
            req_UserEvaluationsId = Some ''evaluation-id''\<rparr>
         = Inr \<lparr>resp_State = FULL, resp_Evaluations = Some evaluations,
                resp_UserEvaluationsId = ueid\<rparr>"
  using assms
  by (auto simp: GetEvaluations_def validateGetEvaluationsRequest_def Let_def)

text \<open>
  Claim C5, as amended. For a valid request and a loaded feature list that is not
  empty, let the new id be the fingerprint of the user and of the loaded features, all
  of them, whatever their tags. When the id of the request equals it, the response is
  \<open>FULL\<close>, carries that id and has no evaluations. When the id of the request differs or
  is absent, the response is \<open>FULL\<close> and carries the new id together with the evaluations
  of the engine (or the call fails with the error of the engine).
\<close>

theorem GetEvaluations_short_circuit:
  assumes "validateGetEvaluationsRequest req = Inr user" and "gw_Features gw = Inr features"
    and "features \<noteq> []"
  shows "(req_UserEvaluationsId req =
            Some (gw_UserEvaluationsID gw (user_Id user) (user_Data user) features) \<longrightarrow>
          GetEvaluations gw req =
            Inr \<lparr>resp_State = FULL, resp_Evaluations = None,
                 resp_UserEvaluationsId =
                   gw_UserEvaluationsID gw (user_Id user) (user_Data user) features\<rparr>) \<and>
         (req_UserEvaluationsId req \<noteq>
            Some (gw_UserEvaluationsID gw (user_Id user) (user_Data user) features) \<longrightarrow>
          GetEvaluations gw req =
            (case gw_evaluate gw features user (req_Tag req) of
               Inl e \<Rightarrow> Inl e
             | Inr evaluations \<Rightarrow>
                 Inr \<lparr>resp_State = FULL, resp_Evaluations = Some evaluations,
                      resp_UserEvaluationsId =
                        gw_UserEvaluationsID gw (user_Id user) (user_Data user) features\<rparr>))"
  using assms by (simp add: GetEvaluations_def Let_def)

text \<open>
  The theorem at three requests for the tag \<open>ios\<close>: with the current id, with a stale
  id and with none.
\<close>

theorem GetEvaluations_short_circuit_witness:
  "validateGetEvaluationsRequest (request0 ''ios'' None)
     = Inr \<lparr>user_Id = ''u1'', user_Data = []\<rparr> \<and>
   gw_Features gateway2 = Inr features0 \<and> features0 \<noteq> [] \<and>
   GetEvaluations gateway2 (request0 ''ios'' (Some ''u1f1f2'')) =
     Inr \<lparr>resp_State = FULL, resp_Evaluations = None, resp_UserEvaluationsId = ''u1f1f2''\<rparr> \<and>
   GetEvaluations gateway2 (request0 ''ios'' (Some ''stale'')) =
     Inr \<lparr>resp_State = FULL,
          resp_Evaluations = Some [\<lparr>ev_FeatureId = ''f1'', ev_FeatureVersion = 1,
            ev_VariationId = ''variation'', ev_Reason = Some ''DEFAULT''\<rparr>],
          resp_UserEvaluationsId = ''u1f1f2''\<rparr> \<and>
   GetEvaluations gateway2 (request0 ''ios'' None) =
     Inr \<lparr>resp_State = FULL,
          resp_Evaluations = Some [\<lparr>ev_FeatureId = ''f1'', ev_FeatureVersion = 1,
            ev_VariationId = ''variation'', ev_Reason = Some ''DEFAULT''\<rparr>],
          resp_UserEvaluationsId = ''u1f1f2''\<rparr>"
proof -
  have v: "\<And>ueid. validateGetEvaluationsRequest (request0 ''ios'' ueid)
      = Inr \<lparr>user_Id = ''u1'', user_Data = []\<rparr>"
    by (simp add: validateGetEvaluationsRequest_def request0_def)
  have f: "gw_Features gateway2 = Inr features0"
    by (simp add: gateway2_def)
  have n: "features0 \<noteq> []"
    by (simp add: features0_def)
  from GetEvaluations_short_circuit[OF v f n, of "Some ''u1f1f2''"]
    GetEvaluations_short_circuit[OF v f n, of "Some ''stale''"]
    GetEvaluations_short_circuit[OF v f n, of None] v f n
  show ?thesis
    by (simp add: request0_def gateway2_def features0_def tagMatch_def)
qed

text \<open>
  The claim C5 as stated takes the id over the features filtered by tag. Of the two
  features loaded, only \<open>f1\<close> carries the tag \<open>ios\<close>, and the id over the filtered
  features is \<open>u1f1\<close>. A request for the tag \<open>ios\<close> that brings this id is not answered
  with it and without evaluations: it gets the evaluations and the id over both
  features. So does a request for the tag \<open>test\<close>, which no feature carries, that
  brings the id over no feature, as in the table of
  \<open>TestGrpcGetEvaluationsUserEvaluationsID\<close>.
\<close>

theorem GetEvaluations_filtered_id_counterexample:
  "filter (tagMatch ''ios'') features0 = [\<lparr>f_Id = ''f1'', f_Version = 1, f_Tags = [''ios'']\<rparr>] \<and>
   gw_UserEvaluationsID gateway2 ''u1'' [] (filter (tagMatch ''ios'') features0) = ''u1f1'' \<and>
   GetEvaluations gateway2 (request0 ''ios'' (Some ''u1f1'')) =
     Inr \<lparr>resp_State = FULL,
          resp_Evaluations = Some [\<lparr>ev_FeatureId = ''f1'', ev_FeatureVersion = 1,
            ev_VariationId = ''variation'', ev_Reason = Some ''DEFAULT''\<rparr>],
          resp_UserEvaluationsId = ''u1f1f2''\<rparr> \<and>
   gw_UserEvaluationsID gateway2 ''u1'' [] (filter (tagMatch ''test'') features0) = ''u1'' \<and>
   GetEvaluations gateway2 (request0 ''test'' (Some ''u1'')) =
     Inr \<lparr>resp_State = FULL, resp_Evaluations = Some [], resp_UserEvaluationsId = ''u1f1f2''\<rparr>"
  by (simp add: GetEvaluations_def validateGetEvaluationsRequest_def Let_def request0_def
      gateway2_def features0_def tagMatch_def)




subsection \<open>RegisterEvents\<close>

lemma fold_register_None:
  "(\<And>event. event \<in> set events \<Longrightarrow> env_Id event = x \<Longrightarrow> r event = None) \<Longrightarrow>
   fold (\<lambda>event errors. case r event of Some e \<Rightarrow> errors(env_Id event \<mapsto> e) | None \<Rightarrow> errors)
     events errors x = errors x"
  by (induction events arbitrary: errors) (auto split: option.splits)





text \<open>
  The model at the rows of the table of \<open>TestGrcpRegisterEvents\<close>: no event, an event
  without id, an event of unknown type, the four events while the upsert fails, and the
  four events while it succeeds. The errors are the ones the test expects.
\<close>

lemma RegisterEvents_test_table:
  "RegisterEvents gateway0 ''ns0'' [] = Inl ErrMissingEvents"
  "RegisterEvents gateway0 ''ns0'' [registered '''' None] = Inl ErrMissingEventID"
  "RegisterEvents gateway0 ''ns0'' [registered ''uuid0'' None]
     = Inr [''uuid0'' \<mapsto> (False, ''Invalid message type'')]"
  "RegisterEvents gateway1 ''ns0'' events4
     = Inr [''uuid1'' \<mapsto> (True, ''Failed to upsert user evaluation'')]"
  "RegisterEvents gateway0 ''ns0'' events4 = Inr Map.empty"
  by (simp_all add: RegisterEvents_def registerEvent_def knownType_def convToEvaluation_def
      registered_def events4_def gateway0_def gateway1_def evaluationEvent0_def)



end
